theory Spec2Isabelle
  imports Complex_Main "HOL-Library.Multiset"
begin

section \<open>Values of the JavaScript runtime\<close>

text \<open>
  Identifiers (Prisma \<open>cuid\<close> strings), wallet addresses and transaction hashes are
  strings. A JavaScript \<open>number\<close> that is only stored, compared or passed on is a
  rational (every finite double is one, and comparison of doubles is exact). A \<open>Date\<close>
  is its time value, the milliseconds since the epoch.
\<close>

type_synonym ident = string
type_synonym number = rat
type_synonym date = int

subsection \<open>Doubles\<close>

text \<open>
  Where the code computes a \<open>number\<close> (the quotient and the product of the vote
  results, the conversion \<open>Number(str)\<close> of the balance), the result is the IEEE 754
  binary64 value nearest to the exact one, ties to the even significand. A positive
  double is \<open>mantissa * 2 ^ expo\<close> with \<open>2 ^ 52 \<le> mantissa < 2 ^ 53\<close>; \<open>dval\<close> is its
  value. Exponents are not bounded here: the model is the double arithmetic for results
  between \<open>2 ^ -1022\<close> and \<open>2 ^ 1024\<close>, where a double is normal and finite.
\<close>

datatype double = Double (mantissa: int) (expo: int)

definition dval :: "double \<Rightarrow> rat" where
  "dval x =
     (if 0 \<le> expo x then of_int (mantissa x) * 2 ^ nat (expo x)
      else of_int (mantissa x) / 2 ^ nat (- expo x))"

text \<open>The integer nearest to \<open>n / d\<close>, the even one of two equally near.\<close>

definition round_div_even :: "nat \<Rightarrow> nat \<Rightarrow> int" where
  "round_div_even n d =
     (let q = n div d; r = n mod d
      in if 2 * r < d then int q
         else if d < 2 * r then int q + 1
         else if even q then int q else int q + 1)"

fun log2_nat :: "nat \<Rightarrow> nat" where
  "log2_nat n = (if n < 2 then 0 else Suc (log2_nat (n div 2)))"

text \<open>\<open>at_least_pow2 n d e\<close>: \<open>2 ^ e \<le> n / d\<close>, for an exponent of either sign.\<close>

definition at_least_pow2 :: "nat \<Rightarrow> nat \<Rightarrow> int \<Rightarrow> bool" where
  "at_least_pow2 n d e = (if 0 \<le> e then d * 2 ^ nat e \<le> n else d \<le> n * 2 ^ nat (- e))"

text \<open>The exponent \<open>e\<close> with \<open>2 ^ e \<le> n / d < 2 ^ (e + 1)\<close>, for positive \<open>n\<close> and \<open>d\<close>.\<close>

definition binade :: "nat \<Rightarrow> nat \<Rightarrow> int" where
  "binade n d =
     (let e = int (log2_nat n) - int (log2_nat d)
      in if at_least_pow2 n d e then e else e - 1)"

text \<open>
  The double nearest to the quotient \<open>n / d\<close> of two natural numbers: the quotient is
  scaled by a power of two into the range of a 53-bit significand and rounded there.
  This is the division \<open>n / d\<close> of two doubles that hold the integers \<open>n\<close> and \<open>d\<close>
  (integers below \<open>2 ^ 53\<close>, as the counts of a table are), and it is \<open>Number(str)\<close>
  for the decimal string \<open>str\<close> of \<open>n / 10 ^ k\<close> when \<open>d\<close> is \<open>10 ^ k\<close> (for a string
  of more than 20 significant digits, as V8 converts it). When the rounding carries,
  the significand returned is \<open>2 ^ 53\<close>: the double \<open>2 ^ 52\<close> of the next exponent.
\<close>

definition nearest_double :: "nat \<Rightarrow> nat \<Rightarrow> double" where
  "nearest_double n d =
     (if n = 0 then Double 0 0
      else let k = binade n d - 52
           in if k < 0 then Double (round_div_even (n * 2 ^ nat (- k)) d) k
              else Double (round_div_even n (d * 2 ^ nat k)) k)"

text \<open>The product \<open>x * c\<close> of a double and a double that holds the integer \<open>c\<close>.\<close>

definition js_times :: "double \<Rightarrow> nat \<Rightarrow> double" where
  "js_times x c =
     (if 0 \<le> expo x then nearest_double (nat (mantissa x) * c * 2 ^ nat (expo x)) 1
      else nearest_double (nat (mantissa x) * c) (2 ^ nat (- expo x)))"

subsection \<open>Strings\<close>

text \<open>Truthiness of a \<open>string | null | undefined\<close>: the empty string is falsy too.\<close>

definition truthy :: "string option \<Rightarrow> bool" where
  "truthy x = (case x of None \<Rightarrow> False | Some a \<Rightarrow> a \<noteq> [])"

section \<open>Errors\<close>

text \<open>
  Every \<open>throw\<close> of the services is a constructor. The \<open>CustomError\<close>s are named after
  their message; \<open>statusCode\<close> gives the HTTP status each one carries.
  \<^item> \<open>UserWithoutWallet\<close>: "Usuario sin direccion de wallet", 400
  \<^item> \<open>PerkNotFound\<close>: "Perk no encontrado", 404
  \<^item> \<open>InsufficientBalance\<close>: "Saldo insuficiente para reclamar este perk", 400
  \<^item> \<open>ClaimNotFound\<close>: "Claim no encontrado", 404
  \<^item> \<open>AlreadyRedeemed\<close>: "Perk ya ha sido canjeado", 400
  \<^item> \<open>VoteNotFound\<close>: "Votacion no encontrada", 404
  \<^item> \<open>VoteNotActive\<close>: "Votacion no esta activa", 400
  \<^item> \<open>VoteInactive\<close>: "Votacion inactiva", 400
  \<^item> \<open>AlreadyVoted\<close>: "Usuario ya ha votado en esta votacion", 400
  \<^item> \<open>InvalidOption\<close>: "Opcion de voto invalida", 400
  \<^item> \<open>OptionHasVotes\<close>: "No se puede eliminar una opcion que ya tiene votos", 400
  \<^item> \<open>IncompleteMetadata\<close>: the plain \<open>Error\<close> "Metadata incompleta en la sesion de Stripe"
  \<^item> \<open>RecordNotFound\<close>: Prisma's error of \<open>update\<close>/\<open>delete\<close> on a missing row
  \<^item> \<open>UniqueViolation\<close>: Prisma's error of \<open>create\<close> against a unique constraint
  \<^item> \<open>SdkError\<close>: anything the blockchain SDK throws
\<close>

datatype error =
    UserWithoutWallet | PerkNotFound | InsufficientBalance | ClaimNotFound | AlreadyRedeemed
  | VoteNotFound | VoteNotActive | VoteInactive | AlreadyVoted | InvalidOption | OptionHasVotes
  | IncompleteMetadata | RecordNotFound | UniqueViolation | SdkError

fun statusCode :: "error \<Rightarrow> nat option" where
  "statusCode PerkNotFound = Some 404"
| "statusCode ClaimNotFound = Some 404"
| "statusCode VoteNotFound = Some 404"
| "statusCode IncompleteMetadata = None"
| "statusCode RecordNotFound = None"
| "statusCode UniqueViolation = None"
| "statusCode SdkError = None"
| "statusCode _ = Some 400"

section \<open>The relational store\<close>

datatype order_status = Pending | Completed | Failed

record user =
  u_id :: ident
  u_email :: string
  u_walletAddress :: "string option"

record order =
  o_id :: ident
  o_userId :: ident
  o_productId :: ident
  o_status :: order_status

record payment =
  pay_orderId :: ident
  pay_provider :: string
  pay_amountEur :: number
  pay_status :: string

record mint =
  m_orderId :: ident
  m_userId :: ident
  m_tokenAmount :: number
  m_txHash :: string
  m_chainId :: nat

record perk =
  p_id :: ident
  p_name :: string
  p_tokenCost :: number
  p_active :: bool

record perk_claim =
  pc_id :: ident
  pc_perkId :: ident
  pc_userId :: ident
  pc_tokenCost :: number
  pc_qrCode :: string
  pc_redeemedAt :: "date option"

record vote =
  v_id :: ident
  v_title :: string
  v_description :: "string option"
  v_startAt :: date
  v_endAt :: date
  v_active :: bool

record vote_option =
  vo_id :: ident
  vo_voteId :: ident
  vo_label :: string

record vote_ballot =
  vb_id :: ident
  vb_voteId :: ident
  vb_optionId :: ident
  vb_userId :: ident

datatype direction = In | Out

datatype currency = EUR | TOKEN

record ledger_entry =
  le_id :: ident
  le_kind :: string
  le_refId :: string
  le_direction :: direction
  le_amount :: number
  le_currency :: currency
  le_metadataJson :: "string option"
  le_createdAt :: date

text \<open>What \<open>logger.info\<close> and \<open>logger.error\<close> are given: a message with its fields.\<close>

datatype jsval = Str string | Num number | Date date

datatype log_entry = LogInfo string "(string \<times> jsval) list" | LogError string error

text \<open>
  The state every service call reads and writes: the tables behind \<open>prisma\<close>, the static
  field \<open>TokenService.sdk\<close> (set or not), the mint commands submitted to the blockchain
  (\<open>contract.erc20.mintTo(address, amount)\<close>, in the order of submission), and the log.
\<close>

record store =
  users :: "user list"
  orders :: "order list"
  payments :: "payment list"
  mints :: "mint list"
  perks :: "perk list"
  perkClaims :: "perk_claim list"
  votes :: "vote list"
  voteOptions :: "vote_option list"
  voteBallots :: "vote_ballot list"
  ledger :: "ledger_entry list"
  sdk :: bool
  chain_cmds :: "(string \<times> number) list"
  logs :: "log_entry list"

text \<open>
  The Prisma schema is not among the sources. The unique constraints the services do
  not show themselves are parameters of the model. Foreign keys are not modelled.
\<close>

record schema =
  mint_orderId_unique :: bool
  claim_qrCode_unique :: bool

text \<open>
  Modelled from the spec: the Prisma schema (\<open>prisma/schema.prisma\<close>) is missing; the
  persisted state layout asks that \<open>Mint.orderId\<close> and \<open>perkClaim.qrCode\<close> be unique.
\<close>

definition spec_schema :: schema where
  "spec_schema = \<lparr>mint_orderId_unique = True, claim_qrCode_unique = True\<rparr>"

text \<open>The schema without those two constraints.\<close>

definition bare_schema :: schema where
  "bare_schema = \<lparr>mint_orderId_unique = False, claim_qrCode_unique = False\<rparr>"

text \<open>
  The blockchain client, as one call sees it: whether \<open>ThirdwebSDK.fromPrivateKey\<close>
  succeeds, whether \<open>getContract\<close> does, what \<open>erc20.mintTo\<close> returns (the hash of
  the transaction's receipt, or \<open>None\<close> when it throws: the call is rejected or times
  out), and the balance oracle \<open>erc20.balanceOf\<close> (\<open>None\<close> when it throws).

  The oracle resolves to a currency value: the balance in base units, the token's
  number of decimals, and \<open>displayValue\<close>, the decimal string of
  \<open>value / 10 ^ decimals\<close>, which is kept here as that quotient.
\<close>

record currency_value =
  cv_value :: nat
  cv_decimals :: nat

definition displayValue :: "currency_value \<Rightarrow> rat" where
  "displayValue balance = of_nat (cv_value balance) / 10 ^ cv_decimals balance"

text \<open>\<open>Number(balance.displayValue)\<close>: the double nearest to the decimal.\<close>

definition Number_displayValue :: "currency_value \<Rightarrow> number" where
  "Number_displayValue balance =
     dval (nearest_double (cv_value balance) (10 ^ cv_decimals balance))"

record chain =
  initialize_ok :: bool
  getContract_ok :: bool
  mintTo :: "string \<Rightarrow> number \<Rightarrow> string option"
  balanceOf :: "string \<Rightarrow> currency_value option"

subsection \<open>The logger and the Prisma operations\<close>

definition log_info :: "string \<Rightarrow> (string \<times> jsval) list \<Rightarrow> store \<Rightarrow> store" where
  "log_info msg kv s = s\<lparr>logs := logs s @ [LogInfo msg kv]\<rparr>"

definition log_error :: "string \<Rightarrow> error \<Rightarrow> store \<Rightarrow> store" where
  "log_error msg e s = s\<lparr>logs := logs s @ [LogError msg e]\<rparr>"

text \<open>
  \<open>update({where: <unique key>, data})\<close> changes the one row the key selects and throws
  when there is none; \<open>updateMany\<close> changes every row of the filter and never throws.
\<close>

fun update_unique :: "('a \<Rightarrow> bool) \<Rightarrow> ('a \<Rightarrow> 'a) \<Rightarrow> 'a list \<Rightarrow> ('a \<times> 'a list) option" where
  "update_unique P f [] = None"
| "update_unique P f (x # xs) =
     (if P x then Some (f x, f x # xs)
      else map_option (\<lambda>(y, ys). (y, x # ys)) (update_unique P f xs))"

text \<open>\<open>delete({where: <unique key>})\<close> removes that row and throws when there is none.\<close>

fun delete_unique :: "('a \<Rightarrow> bool) \<Rightarrow> 'a list \<Rightarrow> 'a list option" where
  "delete_unique P [] = None"
| "delete_unique P (x # xs) =
     (if P x then Some xs else map_option ((#) x) (delete_unique P xs))"

definition order_updateMany :: "(order \<Rightarrow> bool) \<Rightarrow> order_status \<Rightarrow> store \<Rightarrow> store" where
  "order_updateMany P st s =
     s\<lparr>orders := map (\<lambda>r. if P r then r\<lparr>o_status := st\<rparr> else r) (orders s)\<rparr>"

definition order_update :: "ident \<Rightarrow> order_status \<Rightarrow> store \<Rightarrow> error + store" where
  "order_update oid st s =
     (case update_unique (\<lambda>r. o_id r = oid) (\<lambda>r. r\<lparr>o_status := st\<rparr>) (orders s) of
        None \<Rightarrow> Inl RecordNotFound
      | Some (_, os) \<Rightarrow> Inr (s\<lparr>orders := os\<rparr>))"

definition mint_create :: "schema \<Rightarrow> mint \<Rightarrow> store \<Rightarrow> error + store" where
  "mint_create sch row s =
     (if mint_orderId_unique sch \<and> (\<exists>m \<in> set (mints s). m_orderId m = m_orderId row)
      then Inl UniqueViolation
      else Inr (s\<lparr>mints := mints s @ [row]\<rparr>))"

definition user_wallet :: "store \<Rightarrow> ident \<Rightarrow> string option" where
  "user_wallet s userId =
     (case find (\<lambda>u. u_id u = userId) (users s) of
        None \<Rightarrow> None
      | Some u \<Rightarrow> u_walletAddress u)"

section \<open>TokenService\<close>

record mint_result =
  txHash :: string
  success :: bool

text \<open>
  \<open>if (!this.sdk) await this.initialize()\<close>, with the logging of \<open>initialize\<close>: the
  error it rethrows, if any, and the store.
\<close>

definition ensure_sdk :: "chain \<Rightarrow> store \<Rightarrow> error option \<times> store" where
  "ensure_sdk ch s =
     (if sdk s then (None, s)
      else if initialize_ok ch
        then (None, log_info ''Thirdweb SDK initialized'' [] (s\<lparr>sdk := True\<rparr>))
        else (Some SdkError, log_error ''Error initializing Thirdweb SDK:'' SdkError s))"

text \<open>
  \<open>recipientAddress || user!.walletAddress!\<close>, and \<open>None\<close> exactly when the guard
  \<open>!user?.walletAddress && !recipientAddress\<close> throws.
\<close>

definition targetAddress :: "string option \<Rightarrow> string option \<Rightarrow> string option" where
  "targetAddress recipientAddress wallet =
     (if \<not> truthy wallet \<and> \<not> truthy recipientAddress then None
      else if truthy recipientAddress then recipientAddress
      else wallet)"

text \<open>
  The \<open>try\<close> block of \<open>mintTokens\<close>. The store it returns with an error is the store at
  the moment of the throw: what was written before stays written. (The source hands
  \<open>mintTo\<close> the amount as \<open>tokenAmount.toString()\<close>; here it is the number.)
\<close>

definition mint_try ::
  "schema \<Rightarrow> chain \<Rightarrow> store \<Rightarrow> ident \<Rightarrow> ident \<Rightarrow> number \<Rightarrow> string option
    \<Rightarrow> (error + mint_result) \<times> store" where
  "mint_try sch ch s orderId userId tokenAmount recipientAddress =
     (case ensure_sdk ch s of
        (Some e, s1) \<Rightarrow> (Inl e, s1)
      | (None, s1) \<Rightarrow>
        (case targetAddress recipientAddress (user_wallet s1 userId) of
           None \<Rightarrow> (Inl UserWithoutWallet, s1)
         | Some addr \<Rightarrow>
           if \<not> getContract_ok ch then (Inl SdkError, s1)
           else
           let s2 = s1\<lparr>chain_cmds := chain_cmds s1 @ [(addr, tokenAmount)]\<rparr> in
           (case mintTo ch addr tokenAmount of
              None \<Rightarrow> (Inl SdkError, s2)
            | Some tx \<Rightarrow>
              let s3 = log_info ''Mint transaction sent''
                         [(''txHash'', Str tx), (''orderId'', Str orderId),
                          (''userId'', Str userId), (''tokenAmount'', Num tokenAmount),
                          (''recipientAddress'', Str addr)] s2 in
              (case mint_create sch
                      \<lparr>m_orderId = orderId, m_userId = userId, m_tokenAmount = tokenAmount,
                       m_txHash = tx, m_chainId = 137\<rparr> s3 of
                 Inl e \<Rightarrow> (Inl e, s3)
               | Inr s4 \<Rightarrow>
                 (Inr \<lparr>txHash = tx, success = True\<rparr>,
                  order_updateMany (\<lambda>r. o_id r = orderId \<and> o_status r = Pending)
                    Completed s4)))))"

text \<open>
  \<open>mintTokens\<close>: the \<open>try\<close> block, and the \<open>catch\<close> that logs, sets the order's status
  to failed by id alone and rethrows.
\<close>

definition mintTokens ::
  "schema \<Rightarrow> chain \<Rightarrow> store \<Rightarrow> ident \<Rightarrow> ident \<Rightarrow> number \<Rightarrow> string option
    \<Rightarrow> (error + mint_result) \<times> store" where
  "mintTokens sch ch s orderId userId tokenAmount recipientAddress =
     (case mint_try sch ch s orderId userId tokenAmount recipientAddress of
        (Inr r, s') \<Rightarrow> (Inr r, s')
      | (Inl e, s') \<Rightarrow>
        (Inl e, order_updateMany (\<lambda>r. o_id r = orderId) Failed
                  (log_error ''Error minting tokens:'' e s')))"

text \<open>
  \<open>getTokenBalance\<close>: the balance oracle, and \<open>Number(balance.displayValue)\<close> of what
  it resolves to. Its \<open>catch\<close> logs and rethrows.
\<close>

definition getTokenBalance :: "chain \<Rightarrow> store \<Rightarrow> string \<Rightarrow> (error + number) \<times> store" where
  "getTokenBalance ch s walletAddress =
     (case ensure_sdk ch s of
        (Some e, s1) \<Rightarrow> (Inl e, log_error ''Error getting token balance:'' e s1)
      | (None, s1) \<Rightarrow>
        if \<not> getContract_ok ch
        then (Inl SdkError, log_error ''Error getting token balance:'' SdkError s1)
        else (case balanceOf ch walletAddress of
           None \<Rightarrow> (Inl SdkError, log_error ''Error getting token balance:'' SdkError s1)
         | Some balance \<Rightarrow> (Inr (Number_displayValue balance), s1)))"

section \<open>StripeService\<close>

text \<open>
  The part of a \<open>Stripe.Checkout.Session\<close> the handler reads: \<open>metadata\<close> (an object of
  strings, or null) and \<open>amount_total\<close> (cents, or null).
\<close>

record checkout_session =
  cs_id :: string
  cs_metadata :: "(string \<rightharpoonup> string) option"
  cs_amount_total :: "int option"

text \<open>\<open>session.amount_total ? session.amount_total / 100 : 0\<close>; 0 is falsy.\<close>

definition amountEur :: "int option \<Rightarrow> number" where
  "amountEur amount_total =
     (case amount_total of
        None \<Rightarrow> 0
      | Some a \<Rightarrow> if a = 0 then 0 else of_int a / 100)"

text \<open>
  \<open>handleCheckoutCompleted\<close> has no \<open>try\<close>: an error leaves it at once. The order is
  updated by id alone, then a row of the \<open>payment\<close> table is created.
\<close>

definition handleCheckoutCompleted :: "store \<Rightarrow> checkout_session \<Rightarrow> (error + unit) \<times> store" where
  "handleCheckoutCompleted s session =
     (let md = (case cs_metadata session of None \<Rightarrow> Map.empty | Some m \<Rightarrow> m);
          orderId = md ''orderId''; userId = md ''userId'';
          productId = md ''productId''; tokenAmount = md ''tokenAmount''
      in if \<not> truthy orderId \<or> \<not> truthy userId \<or> \<not> truthy productId \<or> \<not> truthy tokenAmount
         then (Inl IncompleteMetadata, s)
         else (case (orderId, userId) of
            (Some oid, Some uid) \<Rightarrow>
              (case order_update oid Completed s of
                 Inl e \<Rightarrow> (Inl e, s)
               | Inr s1 \<Rightarrow>
                 let s2 = s1\<lparr>payments := payments s1 @
                            [\<lparr>pay_orderId = oid, pay_provider = ''stripe'',
                              pay_amountEur = amountEur (cs_amount_total session),
                              pay_status = ''completed''\<rparr>]\<rparr>
                 in (Inr (), log_info ''Checkout completed''
                               [(''orderId'', Str oid), (''userId'', Str uid),
                                (''sessionId'', Str (cs_id session))] s2))
          | _ \<Rightarrow> (Inl IncompleteMetadata, s)))"

section \<open>PerkService\<close>

definition getPerkById :: "store \<Rightarrow> ident \<Rightarrow> (error + perk) \<times> store" where
  "getPerkById s perkId =
     (case find (\<lambda>p. p_id p = perkId \<and> p_active p) (perks s) of
        None \<Rightarrow> (Inl PerkNotFound, log_error ''Error getting perk by ID:'' PerkNotFound s)
      | Some p \<Rightarrow> (Inr p, s))"

subsection \<open>The claim code\<close>

text \<open>
  \<open>generateQRCode\<close> builds \<open>PERK_<Date.now() in base 36>_<8 random bytes in hex>\<close> and
  upper-cases it. The clock (milliseconds) and the bytes are inputs.
\<close>

definition digit_char :: "nat \<Rightarrow> char" where
  "digit_char d = (if d < 10 then char_of (48 + d) else char_of (87 + d))"

fun toString36 :: "nat \<Rightarrow> string" where
  "toString36 n = (if n < 36 then [digit_char n] else toString36 (n div 36) @ [digit_char (n mod 36)])"

definition toHex :: "nat list \<Rightarrow> string" where
  "toHex bytes = concat (map (\<lambda>b. [digit_char (b div 16 mod 16), digit_char (b mod 16)]) bytes)"

definition upper_char :: "char \<Rightarrow> char" where
  "upper_char c =
     (if 97 \<le> (of_char c :: nat) \<and> (of_char c :: nat) \<le> 122
      then char_of ((of_char c :: nat) - 32) else c)"

definition toUpperCase :: "string \<Rightarrow> string" where
  "toUpperCase str = map upper_char str"

definition generateQRCode :: "nat \<Rightarrow> nat list \<Rightarrow> string" where
  "generateQRCode now_ms random =
     toUpperCase (''PERK_'' @ toString36 now_ms @ ''_'' @ toHex random)"

definition perkClaim_create :: "schema \<Rightarrow> perk_claim \<Rightarrow> store \<Rightarrow> error + store" where
  "perkClaim_create sch row s =
     (if claim_qrCode_unique sch \<and> (\<exists>c \<in> set (perkClaims s). pc_qrCode c = pc_qrCode row)
      then Inl UniqueViolation
      else Inr (s\<lparr>perkClaims := perkClaims s @ [row]\<rparr>))"

text \<open>
  The \<open>try\<close> block of \<open>claimPerk\<close>. \<open>newId\<close> is the id the store gives the new row;
  \<open>now_ms\<close> and \<open>random\<close> feed the claim code.
\<close>

definition claim_try ::
  "schema \<Rightarrow> chain \<Rightarrow> store \<Rightarrow> ident \<Rightarrow> nat \<Rightarrow> nat list \<Rightarrow> ident \<Rightarrow> ident
    \<Rightarrow> (error + perk_claim) \<times> store" where
  "claim_try sch ch s newId now_ms random perkId userId =
     (case getPerkById s perkId of
        (Inl e, s1) \<Rightarrow> (Inl e, s1)
      | (Inr perk, s1) \<Rightarrow>
        (case user_wallet s1 userId of
           None \<Rightarrow> (Inl UserWithoutWallet, s1)
         | Some walletAddress \<Rightarrow>
           if walletAddress = [] then (Inl UserWithoutWallet, s1)
           else (case getTokenBalance ch s1 walletAddress of
              (Inl e, s2) \<Rightarrow> (Inl e, s2)
            | (Inr balance, s2) \<Rightarrow>
              if balance < p_tokenCost perk then (Inl InsufficientBalance, s2)
              else
                let qrCode = generateQRCode now_ms random;
                    claim = \<lparr>pc_id = newId, pc_perkId = perkId, pc_userId = userId,
                             pc_tokenCost = p_tokenCost perk, pc_qrCode = qrCode,
                             pc_redeemedAt = None\<rparr>
                in (case perkClaim_create sch claim s2 of
                      Inl e \<Rightarrow> (Inl e, s2)
                    | Inr s3 \<Rightarrow>
                      (Inr claim,
                       log_info ''Perk claimed''
                         [(''claimId'', Str newId), (''perkId'', Str perkId),
                          (''userId'', Str userId), (''tokenCost'', Num (p_tokenCost perk)),
                          (''qrCode'', Str qrCode)] s3)))))"

definition claimPerk ::
  "schema \<Rightarrow> chain \<Rightarrow> store \<Rightarrow> ident \<Rightarrow> nat \<Rightarrow> nat list \<Rightarrow> ident \<Rightarrow> ident
    \<Rightarrow> (error + perk_claim) \<times> store" where
  "claimPerk sch ch s newId now_ms random perkId userId =
     (case claim_try sch ch s newId now_ms random perkId userId of
        (Inr claim, s') \<Rightarrow> (Inr claim, s')
      | (Inl e, s') \<Rightarrow> (Inl e, log_error ''Error claiming perk:'' e s'))"

subsection \<open>Redeeming\<close>

text \<open>
  \<open>redeemPerk\<close> awaits the store twice. \<open>redeem_find\<close> is the first part: the
  \<open>findUnique\<close> and the two guards on what it read. \<open>redeem_update\<close> is the second: the
  \<open>update\<close>, whose \<open>where\<close> is the claim's id alone, and the log that names the staff
  user. \<open>now\<close> is the \<open>new Date()\<close> of the update.
\<close>

definition redeem_find :: "store \<Rightarrow> ident \<Rightarrow> error + perk_claim" where
  "redeem_find s claimId =
     (case find (\<lambda>c. pc_id c = claimId) (perkClaims s) of
        None \<Rightarrow> Inl ClaimNotFound
      | Some claim \<Rightarrow>
        if pc_redeemedAt claim \<noteq> None then Inl AlreadyRedeemed else Inr claim)"

definition redeem_update ::
  "store \<Rightarrow> date \<Rightarrow> ident \<Rightarrow> ident \<Rightarrow> perk_claim \<Rightarrow> (error + perk_claim) \<times> store" where
  "redeem_update s now claimId staffUserId claim =
     (case update_unique (\<lambda>c. pc_id c = claimId) (\<lambda>c. c\<lparr>pc_redeemedAt := Some now\<rparr>)
             (perkClaims s) of
        None \<Rightarrow> (Inl RecordNotFound, s)
      | Some (updatedClaim, cs) \<Rightarrow>
        (Inr updatedClaim,
         log_info ''Perk redeemed''
           [(''claimId'', Str claimId), (''perkId'', Str (pc_perkId claim)),
            (''userId'', Str (pc_userId claim)), (''staffUserId'', Str staffUserId),
            (''redeemedAt'', Date now)]
           (s\<lparr>perkClaims := cs\<rparr>)))"

definition redeemPerk ::
  "store \<Rightarrow> date \<Rightarrow> ident \<Rightarrow> ident \<Rightarrow> (error + perk_claim) \<times> store" where
  "redeemPerk s now claimId staffUserId =
     (case redeem_find s claimId of
        Inl e \<Rightarrow> (Inl e, log_error ''Error redeeming perk:'' e s)
      | Inr claim \<Rightarrow>
        (case redeem_update s now claimId staffUserId claim of
           (Inl e, s1) \<Rightarrow> (Inl e, log_error ''Error redeeming perk:'' e s1)
         | (Inr updatedClaim, s1) \<Rightarrow> (Inr updatedClaim, s1)))"

text \<open>\<open>deletePerk\<close> deactivates: it updates \<open>active\<close> by the perk's id and reads no claim.\<close>

definition deletePerk :: "store \<Rightarrow> ident \<Rightarrow> (error + unit) \<times> store" where
  "deletePerk s perkId =
     (case update_unique (\<lambda>p. p_id p = perkId) (\<lambda>p. p\<lparr>p_active := False\<rparr>) (perks s) of
        None \<Rightarrow> (Inl RecordNotFound, log_error ''Error deactivating perk:'' RecordNotFound s)
      | Some (_, ps) \<Rightarrow>
        (Inr (), log_info ''Perk deactivated'' [(''perkId'', Str perkId)] (s\<lparr>perks := ps\<rparr>)))"

subsection \<open>Two redeem calls in flight\<close>

text \<open>
  Request handlers run on one thread and give way to each other at every \<open>await\<close>. A
  call of \<open>redeemPerk\<close> is therefore two atomic steps, \<open>redeem_find\<close> and
  \<open>redeem_update\<close>, with its \<open>catch\<close> at either; between them any other call may take
  steps. \<open>Checked\<close> holds the claim the call has read.
\<close>

datatype call = Started | Checked perk_claim | Returned "error + perk_claim"

record redeem_request =
  rq_claimId :: ident
  rq_staffUserId :: ident
  rq_now :: date

fun redeem_step :: "redeem_request \<Rightarrow> call \<Rightarrow> store \<Rightarrow> call \<times> store" where
  "redeem_step rq Started s =
     (case redeem_find s (rq_claimId rq) of
        Inl e \<Rightarrow> (Returned (Inl e), log_error ''Error redeeming perk:'' e s)
      | Inr claim \<Rightarrow> (Checked claim, s))"
| "redeem_step rq (Checked claim) s =
     (case redeem_update s (rq_now rq) (rq_claimId rq) (rq_staffUserId rq) claim of
        (Inl e, s1) \<Rightarrow> (Returned (Inl e), log_error ''Error redeeming perk:'' e s1)
      | (Inr updatedClaim, s1) \<Rightarrow> (Returned (Inr updatedClaim), s1))"
| "redeem_step rq (Returned r) s = (Returned r, s)"

datatype turn = First | Second

text \<open>Two calls, and a schedule that says whose step is next.\<close>

fun run_redeems ::
  "redeem_request \<Rightarrow> redeem_request \<Rightarrow> turn list \<Rightarrow> call \<times> call \<times> store \<Rightarrow> call \<times> call \<times> store" where
  "run_redeems rqA rqB [] cfg = cfg"
| "run_redeems rqA rqB (First # ts) (a, b, s) =
     (case redeem_step rqA a s of (a', s') \<Rightarrow> run_redeems rqA rqB ts (a', b, s'))"
| "run_redeems rqA rqB (Second # ts) (a, b, s) =
     (case redeem_step rqB b s of (b', s') \<Rightarrow> run_redeems rqA rqB ts (a, b', s'))"

definition succeeded :: "call \<Rightarrow> bool" where
  "succeeded c = (case c of Returned (Inr _) \<Rightarrow> True | _ \<Rightarrow> False)"

section \<open>VoteService\<close>

definition getVoteById :: "store \<Rightarrow> ident \<Rightarrow> (error + vote) \<times> store" where
  "getVoteById s voteId =
     (case find (\<lambda>v. v_id v = voteId) (votes s) of
        None \<Rightarrow> (Inl VoteNotFound, log_error ''Error getting vote by ID:'' VoteNotFound s)
      | Some v \<Rightarrow> (Inr v, s))"

text \<open>
  The compound key \<open>voteId_userId\<close> of the \<open>findUnique\<close> in \<open>castBallot\<close> exists only
  with a unique constraint on the pair, so \<open>create\<close> enforces it.
\<close>

definition voteBallot_create :: "vote_ballot \<Rightarrow> store \<Rightarrow> error + store" where
  "voteBallot_create row s =
     (if \<exists>b \<in> set (voteBallots s). vb_voteId b = vb_voteId row \<and> vb_userId b = vb_userId row
      then Inl UniqueViolation
      else Inr (s\<lparr>voteBallots := voteBallots s @ [row]\<rparr>))"

text \<open>
  The \<open>try\<close> block of \<open>castBallot\<close>; \<open>now\<close> is its \<open>new Date()\<close> and \<open>newId\<close> the id
  the store gives the ballot.
\<close>

definition ballot_try ::
  "store \<Rightarrow> date \<Rightarrow> ident \<Rightarrow> ident \<Rightarrow> ident \<Rightarrow> ident \<Rightarrow> (error + vote_ballot) \<times> store" where
  "ballot_try s now newId voteId userId optionId =
     (case getVoteById s voteId of
        (Inl e, s1) \<Rightarrow> (Inl e, s1)
      | (Inr v, s1) \<Rightarrow>
        if now < v_startAt v \<or> now > v_endAt v then (Inl VoteNotActive, s1)
        else if \<not> v_active v then (Inl VoteInactive, s1)
        else (case find (\<lambda>b. vb_voteId b = voteId \<and> vb_userId b = userId) (voteBallots s1) of
           Some existingBallot \<Rightarrow> (Inl AlreadyVoted, s1)
         | None \<Rightarrow>
           (case find (\<lambda>x. vo_id x = optionId \<and> vo_voteId x = voteId) (voteOptions s1) of
              None \<Rightarrow> (Inl InvalidOption, s1)
            | Some option \<Rightarrow>
              let ballot = \<lparr>vb_id = newId, vb_voteId = voteId, vb_optionId = optionId,
                            vb_userId = userId\<rparr>
              in (case voteBallot_create ballot s1 of
                    Inl e \<Rightarrow> (Inl e, s1)
                  | Inr s2 \<Rightarrow>
                    (Inr ballot,
                     log_info ''Ballot cast''
                       [(''ballotId'', Str newId), (''voteId'', Str voteId),
                        (''userId'', Str userId), (''optionId'', Str optionId)] s2)))))"

definition castBallot ::
  "store \<Rightarrow> date \<Rightarrow> ident \<Rightarrow> ident \<Rightarrow> ident \<Rightarrow> ident \<Rightarrow> (error + vote_ballot) \<times> store" where
  "castBallot s now newId voteId userId optionId =
     (case ballot_try s now newId voteId userId optionId of
        (Inr ballot, s') \<Rightarrow> (Inr ballot, s')
      | (Inl e, s') \<Rightarrow> (Inl e, log_error ''Error casting ballot:'' e s'))"

subsection \<open>Results\<close>

record option_result =
  r_id :: ident
  r_label :: string
  r_votes :: nat
  r_percentage :: number

record vote_summary =
  vs_id :: ident
  vs_title :: string
  vs_description :: "string option"
  vs_startAt :: date
  vs_endAt :: date
  vs_totalVotes :: nat

record vote_results =
  vr_vote :: vote_summary
  vr_results :: "option_result list"

text \<open>\<open>option._count.ballots\<close>: the ballots whose \<open>optionId\<close> is the option's id.\<close>

definition count_ballots :: "store \<Rightarrow> vote_option \<Rightarrow> nat" where
  "count_ballots s x = length (filter (\<lambda>b. vb_optionId b = vo_id x) (voteBallots s))"

text \<open>
  The \<open>findMany\<close> of \<open>getVoteResults\<close>: the options of the vote, most ballots first.
  (The store fixes no order among options with equally many ballots; here they keep
  the order of the table.)
\<close>

definition options_by_ballots :: "store \<Rightarrow> ident \<Rightarrow> vote_option list" where
  "options_by_ballots s voteId =
     sort_key (\<lambda>x. - int (count_ballots s x)) (filter (\<lambda>x. vo_voteId x = voteId) (voteOptions s))"

text \<open>
  The percentage \<open>totalVotes > 0 ? (option._count.ballots / totalVotes) * 100 : 0\<close>:
  the quotient is rounded to a double, and so is its product with 100.
\<close>

definition percentage :: "nat \<Rightarrow> nat \<Rightarrow> number" where
  "percentage ballots totalVotes =
     (if totalVotes > 0 then dval (js_times (nearest_double ballots totalVotes) 100) else 0)"

definition getVoteResults :: "store \<Rightarrow> ident \<Rightarrow> (error + vote_results) \<times> store" where
  "getVoteResults s voteId =
     (case getVoteById s voteId of
        (Inl e, s1) \<Rightarrow> (Inl e, log_error ''Error getting vote results:'' e s1)
      | (Inr v, s1) \<Rightarrow>
        let results = options_by_ballots s1 voteId;
            totalVotes = foldl (\<lambda>sum x. sum + count_ballots s1 x) 0 results;
            resultsWithPercentages =
              map (\<lambda>x. \<lparr>r_id = vo_id x, r_label = vo_label x, r_votes = count_ballots s1 x,
                         r_percentage = percentage (count_ballots s1 x) totalVotes\<rparr>) results
        in (Inr \<lparr>vr_vote = \<lparr>vs_id = v_id v, vs_title = v_title v,
                               vs_description = v_description v, vs_startAt = v_startAt v,
                               vs_endAt = v_endAt v, vs_totalVotes = totalVotes\<rparr>,
                  vr_results = resultsWithPercentages\<rparr>, s1))"

subsection \<open>Removing an option\<close>

definition removeVoteOption :: "store \<Rightarrow> ident \<Rightarrow> (error + unit) \<times> store" where
  "removeVoteOption s optionId =
     (let ballotsCount = length (filter (\<lambda>b. vb_optionId b = optionId) (voteBallots s))
      in if ballotsCount > 0
         then (Inl OptionHasVotes, log_error ''Error removing vote option:'' OptionHasVotes s)
         else (case delete_unique (\<lambda>x. vo_id x = optionId) (voteOptions s) of
            None \<Rightarrow> (Inl RecordNotFound,
                      log_error ''Error removing vote option:'' RecordNotFound s)
          | Some os \<Rightarrow>
            (Inr (), log_info ''Vote option removed'' [(''optionId'', Str optionId)]
                       (s\<lparr>voteOptions := os\<rparr>))))"

section \<open>LedgerService\<close>

text \<open>
  What the export asks of the JavaScript runtime: \<open>Date.prototype.toISOString\<close> (the
  ISO-8601 form of a date), the string a template literal makes of a number, and
  \<open>new Date(string)\<close>.
\<close>

record js_runtime =
  toISOString :: "date \<Rightarrow> string"
  numberToString :: "number \<Rightarrow> string"
  parseDate :: "string \<Rightarrow> date"

record date_range =
  startDate :: "string option"
  endDate :: "string option"

definition comma :: char where
  "comma = CHR '',''"

definition dquote :: char where
  "dquote = CHR 0x22"

definition newline :: char where
  "newline = CHR 0x0A"

text \<open>
  The filter on \<open>createdAt\<close>: \<open>gte\<close> the start date and \<open>lte\<close> the end date, each only
  when the range has it (and it is not the empty string).
\<close>

definition createdAt_where :: "js_runtime \<Rightarrow> date_range option \<Rightarrow> ledger_entry \<Rightarrow> bool" where
  "createdAt_where js dateRange e =
     (case dateRange of
        None \<Rightarrow> True
      | Some r \<Rightarrow>
        (case startDate r of
           None \<Rightarrow> True
         | Some d \<Rightarrow> if d = [] then True else parseDate js d \<le> le_createdAt e)
        \<and> (case endDate r of
           None \<Rightarrow> True
         | Some d \<Rightarrow> if d = [] then True else le_createdAt e \<le> parseDate js d))"

text \<open>
  The \<open>findMany\<close> of the export: the entries of the range, newest first. (Entries
  created at the same instant keep the order of the table.)
\<close>

definition ledger_findMany :: "js_runtime \<Rightarrow> store \<Rightarrow> date_range option \<Rightarrow> ledger_entry list" where
  "ledger_findMany js s dateRange =
     sort_key (\<lambda>e. - le_createdAt e) (filter (createdAt_where js dateRange) (ledger s))"

definition direction_str :: "direction \<Rightarrow> string" where
  "direction_str d = (case d of In \<Rightarrow> ''in'' | Out \<Rightarrow> ''out'')"

definition currency_str :: "currency \<Rightarrow> string" where
  "currency_str c = (case c of EUR \<Rightarrow> ''EUR'' | TOKEN \<Rightarrow> ''TOKEN'')"

text \<open>\<open>replace(/"/g, '""')\<close>\<close>

definition double_quotes :: "string \<Rightarrow> string" where
  "double_quotes m = concat (map (\<lambda>c. if c = dquote then [dquote, dquote] else [c]) m)"

text \<open>The metadata field: quoted when \<open>metadataJson\<close> is truthy, empty otherwise.\<close>

definition metadata_field :: "string option \<Rightarrow> string" where
  "metadata_field metadataJson =
     (if truthy metadataJson
      then (case metadataJson of
              None \<Rightarrow> []
            | Some m \<Rightarrow> [dquote] @ double_quotes m @ [dquote])
      else [])"

definition csv_row :: "js_runtime \<Rightarrow> ledger_entry \<Rightarrow> string" where
  "csv_row js e =
     le_id e @ [comma] @ le_kind e @ [comma] @ le_refId e @ [comma]
     @ direction_str (le_direction e) @ [comma] @ numberToString js (le_amount e) @ [comma]
     @ currency_str (le_currency e) @ [comma] @ metadata_field (le_metadataJson e) @ [comma]
     @ toISOString js (le_createdAt e)"

definition csvHeaders :: string where
  "csvHeaders = ''ID,Kind,Reference ID,Direction,Amount,Currency,Metadata,Created At'' @ [newline]"

text \<open>\<open>Array.prototype.join\<close>\<close>

fun join :: "string \<Rightarrow> string list \<Rightarrow> string" where
  "join sep [] = []"
| "join sep [x] = x"
| "join sep (x # y # ys) = x @ sep @ join sep (y # ys)"

definition exportLedgerCSV :: "js_runtime \<Rightarrow> store \<Rightarrow> date_range option \<Rightarrow> string" where
  "exportLedgerCSV js s dateRange =
     csvHeaders @ join [newline] (map (csv_row js) (ledger_findMany js s dateRange))"

subsection \<open>Reading the export back\<close>

text \<open>
  The reader the round-trip property is stated against, in the sense of RFC 4180: fields
  are separated by commas and records by line feeds; a field that starts with a double
  quote runs to the next double quote that is not doubled, and a doubled one stands for
  one; a line feed at the very end starts no further record. The reader keeps the field
  it is in (reversed), the fields of the record it is in (reversed), and where it is.
\<close>

datatype csv_mode = AtStart | Unquoted | Quoted | QuoteSeen

fun parse_csv_from :: "csv_mode \<Rightarrow> string \<Rightarrow> string list \<Rightarrow> string \<Rightarrow> string list list" where
  "parse_csv_from m cur row [] =
     (if m = AtStart \<and> cur = [] \<and> row = [] then [] else [rev (rev cur # row)])"
| "parse_csv_from m cur row (c # cs) =
     (if m = Quoted then
        (if c = dquote then parse_csv_from QuoteSeen cur row cs
         else parse_csv_from Quoted (c # cur) row cs)
      else if m = QuoteSeen \<and> c = dquote then parse_csv_from Quoted (c # cur) row cs
      else if m = AtStart \<and> c = dquote then parse_csv_from Quoted cur row cs
      else if c = comma then parse_csv_from AtStart [] (rev cur # row) cs
      else if c = newline then rev (rev cur # row) # parse_csv_from AtStart [] [] cs
      else parse_csv_from Unquoted (c # cur) row cs)"

definition parse_csv :: "string \<Rightarrow> string list list" where
  "parse_csv text = parse_csv_from AtStart [] [] text"

text \<open>The field values of a ledger entry, as the export writes them.\<close>

definition entry_fields :: "js_runtime \<Rightarrow> ledger_entry \<Rightarrow> string list" where
  "entry_fields js e =
     [le_id e, le_kind e, le_refId e, direction_str (le_direction e),
      numberToString js (le_amount e), currency_str (le_currency e),
      (case le_metadataJson e of None \<Rightarrow> [] | Some m \<Rightarrow> m),
      toISOString js (le_createdAt e)]"

definition header_fields :: "string list" where
  "header_fields =
     [''ID'', ''Kind'', ''Reference ID'', ''Direction'', ''Amount'', ''Currency'', ''Metadata'',
      ''Created At'']"

text \<open>A value the export writes bare reads back as itself when it has none of these.\<close>

definition plain :: "string \<Rightarrow> bool" where
  "plain str = (comma \<notin> set str \<and> dquote \<notin> set str \<and> newline \<notin> set str)"

text \<open>The values of an entry that the export writes bare are all plain.\<close>

definition plain_entry :: "js_runtime \<Rightarrow> ledger_entry \<Rightarrow> bool" where
  "plain_entry js e \<longleftrightarrow>
     plain (le_id e) \<and> plain (le_kind e) \<and> plain (le_refId e)
     \<and> plain (numberToString js (le_amount e)) \<and> plain (toISOString js (le_createdAt e))"

section \<open>Example stores\<close>

definition empty_store :: store where
  "empty_store = \<lparr>users = [], orders = [], payments = [], mints = [], perks = [],
     perkClaims = [], votes = [], voteOptions = [], voteBallots = [], ledger = [],
     sdk = False, chain_cmds = [], logs = []\<rparr>"

definition alice :: user where
  "alice = \<lparr>u_id = ''u1'', u_email = ''alice@example.com'', u_walletAddress = Some ''0xA11CE''\<rparr>"

text \<open>A blockchain client that accepts every mint with the given hash, and one that rejects.\<close>

definition chain_accepts :: "string \<Rightarrow> chain" where
  "chain_accepts tx =
     \<lparr>initialize_ok = True, getContract_ok = True, mintTo = (\<lambda>a n. Some tx),
      balanceOf = (\<lambda>a. Some \<lparr>cv_value = 0, cv_decimals = 18\<rparr>)\<rparr>"

definition chain_rejects :: chain where
  "chain_rejects =
     \<lparr>initialize_ok = True, getContract_ok = True, mintTo = (\<lambda>a n. None),
      balanceOf = (\<lambda>a. None)\<rparr>"

text \<open>Order \<open>o1\<close> is completed and has its Mint row, with hash \<open>0xaaa\<close>.\<close>

definition mint_store :: store where
  "mint_store = empty_store\<lparr>users := [alice],
     orders := [\<lparr>o_id = ''o1'', o_userId = ''u1'', o_productId = ''p1'', o_status = Completed\<rparr>],
     mints := [\<lparr>m_orderId = ''o1'', m_userId = ''u1'', m_tokenAmount = 100,
                m_txHash = ''0xaaa'', m_chainId = 137\<rparr>]\<rparr>"

text \<open>Order \<open>o1\<close> is pending, and the checkout session that pays it (50 EUR).\<close>

definition settle_store :: store where
  "settle_store = empty_store\<lparr>users := [alice],
     orders := [\<lparr>o_id = ''o1'', o_userId = ''u1'', o_productId = ''p1'', o_status = Pending\<rparr>]\<rparr>"

definition session_o1 :: checkout_session where
  "session_o1 =
     \<lparr>cs_id = ''cs_1'',
      cs_metadata = Some [''orderId'' \<mapsto> ''o1'', ''userId'' \<mapsto> ''u1'', ''productId'' \<mapsto> ''p1'',
                          ''tokenAmount'' \<mapsto> ''100''],
      cs_amount_total = Some 5000\<rparr>"

text \<open>
  Perk \<open>p1\<close> costs 10 tokens and is active; claim \<open>c1\<close> of it, by \<open>u1\<close>, is not
  redeemed. Two staff users ask to redeem \<open>c1\<close>, at times 1000 and 2000.
\<close>

definition perk_store :: store where
  "perk_store = empty_store\<lparr>users := [alice],
     perks := [\<lparr>p_id = ''p1'', p_name = ''Coffee'', p_tokenCost = 10, p_active = True\<rparr>],
     perkClaims := [\<lparr>pc_id = ''c1'', pc_perkId = ''p1'', pc_userId = ''u1'', pc_tokenCost = 10,
                     pc_qrCode = ''PERK_A_00'', pc_redeemedAt = None\<rparr>]\<rparr>"

definition staff_one :: redeem_request where
  "staff_one = \<lparr>rq_claimId = ''c1'', rq_staffUserId = ''s1'', rq_now = 1000\<rparr>"

definition staff_two :: redeem_request where
  "staff_two = \<lparr>rq_claimId = ''c1'', rq_staffUserId = ''s2'', rq_now = 2000\<rparr>"

definition claim_c1 :: perk_claim where
  "claim_c1 = \<lparr>pc_id = ''c1'', pc_perkId = ''p1'', pc_userId = ''u1'', pc_tokenCost = 10,
                pc_qrCode = ''PERK_A_00'', pc_redeemedAt = None\<rparr>"

text \<open>
  Vote \<open>v1\<close> is open from time 100 to time 200, with options A (\<open>oa\<close>) and B (\<open>ob\<close>):
  three ballots for A and one for B.
\<close>

definition vote_store :: store where
  "vote_store = empty_store\<lparr>
     votes := [\<lparr>v_id = ''v1'', v_title = ''Logo'', v_description = None, v_startAt = 100,
                v_endAt = 200, v_active = True\<rparr>],
     voteOptions := [\<lparr>vo_id = ''ob'', vo_voteId = ''v1'', vo_label = ''B''\<rparr>,
                     \<lparr>vo_id = ''oa'', vo_voteId = ''v1'', vo_label = ''A''\<rparr>],
     voteBallots := [\<lparr>vb_id = ''b1'', vb_voteId = ''v1'', vb_optionId = ''oa'', vb_userId = ''u1''\<rparr>,
                     \<lparr>vb_id = ''b2'', vb_voteId = ''v1'', vb_optionId = ''ob'', vb_userId = ''u2''\<rparr>,
                     \<lparr>vb_id = ''b3'', vb_voteId = ''v1'', vb_optionId = ''oa'', vb_userId = ''u3''\<rparr>,
                     \<lparr>vb_id = ''b4'', vb_voteId = ''v1'', vb_optionId = ''oa'', vb_userId = ''u4''\<rparr>]\<rparr>"

text \<open>
  Vote \<open>v1\<close> again, with twenty ballots: the first eleven for A, the other nine for B.
\<close>

definition close_vote_store :: store where
  "close_vote_store = vote_store\<lparr>voteBallots :=
     map (\<lambda>i. \<lparr>vb_id = ''b'' @ replicate i CHR ''i'', vb_voteId = ''v1'',
                vb_optionId = (if i < 11 then ''oa'' else ''ob''),
                vb_userId = ''u'' @ replicate i CHR ''i''\<rparr>) [0..<20]\<rparr>"

text \<open>
  A balance oracle that reports the same balance for every address: so many whole tokens
  of a token with 18 decimals.
\<close>

definition chain_balance :: "nat \<Rightarrow> chain" where
  "chain_balance b =
     \<lparr>initialize_ok = True, getContract_ok = True, mintTo = (\<lambda>a n. None),
      balanceOf = (\<lambda>a. Some \<lparr>cv_value = b * 10 ^ 18, cv_decimals = 18\<rparr>)\<rparr>"

text \<open>
  An oracle that reports 9.999999999999999999 tokens: one base unit less than 10 tokens.
\<close>

definition chain_just_below_ten :: chain where
  "chain_just_below_ten =
     \<lparr>initialize_ok = True, getContract_ok = True, mintTo = (\<lambda>a n. None),
      balanceOf = (\<lambda>a. Some \<lparr>cv_value = 9999999999999999999, cv_decimals = 18\<rparr>)\<rparr>"

text \<open>
  A runtime fixed on the values of the examples: the date 1704067200000 is
  2024-01-01T00:00:00.000Z, and the numbers 50 and 100 print as themselves.
\<close>

definition js_example :: js_runtime where
  "js_example =
     \<lparr>toISOString = (\<lambda>d. if d = 1704067200000 then ''2024-01-01T00:00:00.000Z''
                           else ''1970-01-01T00:00:00.000Z''),
      numberToString = (\<lambda>n. if n = 50 then ''50'' else if n = 100 then ''100'' else ''0''),
      parseDate = (\<lambda>str. 0)\<rparr>"

text \<open>
  A ledger of two entries: a payment whose metadata \<open>{"a":1,"b":2}\<close> has a comma and
  quotes, and a later mint without metadata.
\<close>

definition metadata_example :: string where
  "metadata_example =
     ''{'' @ [dquote] @ ''a'' @ [dquote] @ '':1,'' @ [dquote] @ ''b'' @ [dquote] @ '':2}''"

definition payment_entry :: ledger_entry where
  "payment_entry = \<lparr>le_id = ''l1'', le_kind = ''payment'', le_refId = ''o1'', le_direction = In,
     le_amount = 50, le_currency = EUR, le_metadataJson = Some metadata_example,
     le_createdAt = 0\<rparr>"

definition mint_entry :: ledger_entry where
  "mint_entry = \<lparr>le_id = ''l2'', le_kind = ''mint'', le_refId = ''o1'', le_direction = Out,
     le_amount = 100, le_currency = TOKEN, le_metadataJson = None,
     le_createdAt = 1704067200000\<rparr>"

definition ledger_store :: store where
  "ledger_store = empty_store\<lparr>ledger := [payment_entry, mint_entry]\<rparr>"

text \<open>An entry whose kind has a comma.\<close>

definition comma_entry :: ledger_entry where
  "comma_entry = \<lparr>le_id = ''l3'', le_kind = ''refund,partial'', le_refId = ''o1'',
     le_direction = Out, le_amount = 50, le_currency = EUR, le_metadataJson = None,
     le_createdAt = 0\<rparr>"

section \<open>Rounding to a double\<close>

text \<open>
  The rounded quotient is within half a unit in the last place of the exact one: the
  relative error of \<open>nearest_double\<close> and of \<open>js_times\<close> is at most \<open>2 ^ -53\<close>.
\<close>

declare log2_nat.simps [simp del]

lemma log2_nat_bounds:
  "0 < n \<Longrightarrow> 2 ^ log2_nat n \<le> n \<and> n < 2 * 2 ^ log2_nat n"
proof (induction n rule: log2_nat.induct)
  case (1 n)
  show ?case
  proof (cases "n < 2")
    case True
    with "1.prems" have "n = 1" by simp
    then show ?thesis by (simp add: log2_nat.simps)
  next
    case False
    then have "0 < n div 2" by simp
    with "1.IH"[OF False] have ih: "2 ^ log2_nat (n div 2) \<le> n div 2"
      "n div 2 < 2 * 2 ^ log2_nat (n div 2)"
      by simp_all
    have l: "log2_nat n = Suc (log2_nat (n div 2))"
      using False by (subst log2_nat.simps) simp
    from ih show ?thesis
      unfolding l by simp linarith
  qed
qed

lemma powi_nonneg: "0 \<le> e \<Longrightarrow> (2::rat) powi e = 2 ^ nat e"
  by (simp add: power_int_def)

lemma powi_neg: "e < 0 \<Longrightarrow> (2::rat) powi e = 1 / 2 ^ nat (- e)"
  by (simp add: power_int_def power_one_over)

lemma dval_powi: "dval x = of_int (mantissa x) * 2 powi expo x"
  by (simp add: dval_def powi_nonneg powi_neg)

lemma at_least_pow2_iff:
  assumes "0 < d"
  shows "at_least_pow2 n d e \<longleftrightarrow> 2 powi e \<le> (of_nat n / of_nat d :: rat)"
proof (cases "0 \<le> e")
  case True
  have "(2::rat) ^ nat e \<le> of_nat n / of_nat d \<longleftrightarrow> of_nat d * (2::rat) ^ nat e \<le> of_nat n"
    using assms by (simp add: pos_le_divide_eq mult.commute)
  also have "\<dots> \<longleftrightarrow> (of_nat (d * 2 ^ nat e) :: rat) \<le> of_nat n"
    by simp
  also have "\<dots> \<longleftrightarrow> d * 2 ^ nat e \<le> n"
    by (rule of_nat_le_iff)
  finally show ?thesis
    using True by (simp add: at_least_pow2_def powi_nonneg)
next
  case False
  have "1 / (2::rat) ^ nat (- e) \<le> of_nat n / of_nat d
      \<longleftrightarrow> (of_nat d :: rat) \<le> of_nat n * 2 ^ nat (- e)"
    using assms by (simp add: field_simps)
  also have "\<dots> \<longleftrightarrow> (of_nat d :: rat) \<le> of_nat (n * 2 ^ nat (- e))"
    by simp
  also have "\<dots> \<longleftrightarrow> d \<le> n * 2 ^ nat (- e)"
    by (rule of_nat_le_iff)
  finally show ?thesis
    using False by (simp add: at_least_pow2_def powi_neg)
qed

lemma binade_bounds:
  assumes "0 < n" and "0 < d"
  shows "2 powi binade n d \<le> (of_nat n / of_nat d :: rat)"
    and "(of_nat n / of_nat d :: rat) < 2 powi (binade n d + 1)"
proof -
  let ?q = "of_nat n / of_nat d :: rat"
  let ?a = "log2_nat n" and ?b = "log2_nat d"
  let ?e = "int ?a - int ?b"
  from log2_nat_bounds[OF assms(1)] have n: "(2::rat) ^ ?a \<le> of_nat n" "(of_nat n :: rat) < 2 * 2 ^ ?a"
    by (metis of_nat_le_iff of_nat_numeral of_nat_power, metis of_nat_less_iff of_nat_numeral of_nat_power of_nat_mult)
  from log2_nat_bounds[OF assms(2)] have d: "(2::rat) ^ ?b \<le> of_nat d" "(of_nat d :: rat) < 2 * 2 ^ ?b"
    by (metis of_nat_le_iff of_nat_numeral of_nat_power, metis of_nat_less_iff of_nat_numeral of_nat_power of_nat_mult)
  have e: "(2::rat) powi ?e = 2 ^ ?a / 2 ^ ?b"
    by (simp add: power_int_diff)
  have dpos: "(0::rat) < of_nat d"
    using assms(2) by simp
  have up: "?q < 2 * 2 powi ?e"
  proof -
    have "?q < 2 * 2 ^ ?a / of_nat d"
      using n(2) dpos by (simp add: divide_strict_right_mono)
    also have "\<dots> \<le> 2 * 2 ^ ?a / 2 ^ ?b"
      using d(1) by (simp add: frac_le)
    finally show ?thesis by (simp add: e)
  qed
  have lo: "2 powi ?e / 2 < ?q"
  proof -
    have "(2::rat) ^ ?a / (2 * 2 ^ ?b) < 2 ^ ?a / of_nat d"
      using d(2) dpos by (simp add: frac_less2)
    also have "\<dots> \<le> ?q"
      using n(1) dpos by (simp add: divide_right_mono)
    finally show ?thesis by (simp add: e)
  qed
  have s: "(2::rat) powi (?e + 1) = 2 * 2 powi ?e" "(2::rat) powi (?e - 1) = 2 powi ?e / 2"
    by (simp_all add: power_int_add power_int_diff)
  show "2 powi binade n d \<le> ?q"
    using lo at_least_pow2_iff[OF assms(2), of n ?e]
    by (auto simp: binade_def Let_def s)
  show "?q < 2 powi (binade n d + 1)"
    using up at_least_pow2_iff[OF assms(2), of n ?e]
    by (auto simp: binade_def Let_def s)
qed

lemma round_div_even_error:
  assumes "0 < d"
  shows "\<bar>of_int (round_div_even n d) - (of_nat n / of_nat d :: rat)\<bar> \<le> 1 / 2"
proof -
  let ?q = "n div d" and ?r = "n mod d"
  have dpos: "(0::rat) < of_nat d"
    using assms by simp
  have "(of_nat n :: rat) = of_nat ?q * of_nat d + of_nat ?r"
    by (simp flip: of_nat_mult of_nat_add)
  then have n: "(of_nat n / of_nat d :: rat) = of_nat ?q + of_nat ?r / of_nat d"
    using dpos by (simp add: field_simps)
  have r: "(of_nat ?r :: rat) < of_nat d"
    using assms by simp
  consider "2 * ?r < d" | "d < 2 * ?r" | "2 * ?r = d"
    by linarith
  then show ?thesis
  proof cases
    case 1
    then have "(2 * of_nat ?r :: rat) < of_nat d"
      by (metis of_nat_less_iff of_nat_mult of_nat_numeral)
    then have "(of_nat ?r / of_nat d :: rat) < 1 / 2"
      using dpos by (simp add: field_simps)
    moreover have "(0::rat) \<le> of_nat ?r / of_nat d"
      by simp
    ultimately show ?thesis
      using 1 by (simp add: round_div_even_def Let_def n)
  next
    case 2
    then have "(of_nat d :: rat) < 2 * of_nat ?r"
      by (metis of_nat_less_iff of_nat_mult of_nat_numeral)
    then have "(1 / 2 :: rat) < of_nat ?r / of_nat d"
      using dpos by (simp add: field_simps)
    moreover have "(of_nat ?r / of_nat d :: rat) < 1"
      using r dpos by simp
    ultimately show ?thesis
      using 2 by (simp add: round_div_even_def Let_def n)
  next
    case 3
    then have "(2 * of_nat ?r :: rat) = of_nat d"
      by (metis of_nat_mult of_nat_numeral)
    then have "(of_nat ?r / of_nat d :: rat) = 1 / 2"
      using dpos by (simp add: field_simps)
    then show ?thesis
      using 3 by (simp add: round_div_even_def Let_def n)
  qed
qed

lemma abs_scale:
  fixes m x s :: rat
  assumes "0 < s"
  shows "\<bar>m - x / s\<bar> * s = \<bar>m * s - x\<bar>"
proof -
  have "(m - x / s) * s = m * s - x"
    using assms by (simp add: field_simps)
  moreover have "\<bar>m - x / s\<bar> * s = \<bar>(m - x / s) * s\<bar>"
    using assms by (simp add: abs_mult)
  ultimately show ?thesis
    by simp
qed

lemma abs_triangle_scaled:
  fixes p d q :: rat
  shows "\<bar>p - q * 100\<bar> \<le> \<bar>p - d * 100\<bar> + 100 * \<bar>d - q\<bar>"
proof -
  have "d * 100 - q * 100 = 100 * (d - q)"
    by simp
  then have "\<bar>d * 100 - q * 100\<bar> = 100 * \<bar>d - q\<bar>"
    by (simp only: abs_mult)
  moreover have "\<bar>p - q * 100\<bar> \<le> \<bar>p - d * 100\<bar> + \<bar>d * 100 - q * 100\<bar>"
    by linarith
  ultimately show ?thesis
    by simp
qed

lemma nearest_double_error:
  assumes "0 < n" and "0 < d"
  shows "\<bar>dval (nearest_double n d) - (of_nat n / of_nat d :: rat)\<bar>
     \<le> (of_nat n / of_nat d) / 2 ^ 53"
proof -
  let ?q = "of_nat n / of_nat d :: rat"
  define k where "k = binade n d - 52"
  define s :: rat where "s = 2 powi k"
  have spos: "0 < s"
    by (simp add: s_def)
  obtain N D where ND: "nearest_double n d = Double (round_div_even N D) k" "0 < D"
    "(of_nat N / of_nat D :: rat) = ?q / s"
  proof (cases "k < 0")
    case True
    have "(of_nat (n * 2 ^ nat (- k)) / of_nat d :: rat) = ?q / s"
      using True by (simp add: s_def powi_neg)
    with True assms show ?thesis
      by (intro that[of "n * 2 ^ nat (- k)" d]) (simp_all add: nearest_double_def k_def Let_def)
  next
    case False
    have "(of_nat n / of_nat (d * 2 ^ nat k) :: rat) = ?q / s"
      using False by (simp add: s_def powi_nonneg)
    with False assms show ?thesis
      by (intro that[of n "d * 2 ^ nat k"]) (simp_all add: nearest_double_def k_def Let_def)
  qed
  let ?M = "of_int (round_div_even N D) :: rat"
  have "\<bar>?M - ?q / s\<bar> \<le> 1 / 2"
    using round_div_even_error[OF ND(2), of N] ND(3) by simp
  then have "\<bar>?M - ?q / s\<bar> * s \<le> 1 / 2 * s"
    using spos by (simp add: mult_right_mono)
  moreover have "\<bar>?M - ?q / s\<bar> * s = \<bar>?M * s - ?q\<bar>"
    by (rule abs_scale[OF spos])
  ultimately have e: "\<bar>?M * s - ?q\<bar> \<le> s / 2"
    by simp
  have "s / 2 = 2 powi binade n d / 2 ^ 53"
    by (simp add: s_def k_def power_int_diff)
  also have "\<dots> \<le> ?q / 2 ^ 53"
    using binade_bounds(1)[OF assms] by (simp add: divide_right_mono)
  finally have "s / 2 \<le> ?q / 2 ^ 53" .
  with e show ?thesis
    by (simp add: dval_powi ND(1) s_def)
qed

lemma nearest_double_zero: "nearest_double 0 d = Double 0 0"
  by (simp add: nearest_double_def)

lemma nearest_double_mantissa: "0 \<le> mantissa (nearest_double n d)"
  by (simp add: nearest_double_def round_div_even_def Let_def)

lemma js_times_error:
  assumes "0 \<le> mantissa x"
  shows "\<bar>dval (js_times x c) - dval x * of_nat c\<bar> \<le> (dval x * of_nat c) / 2 ^ 53"
proof -
  let ?y = "dval x * of_nat c"
  obtain N D where ND: "js_times x c = nearest_double N D" "0 < D"
    "(of_nat N / of_nat D :: rat) = ?y"
  proof (cases "0 \<le> expo x")
    case True
    have "(of_nat (nat (mantissa x) * c * 2 ^ nat (expo x)) / of_nat 1 :: rat) = ?y"
      using True assms by (simp add: dval_def)
    with True show ?thesis
      by (intro that[of "nat (mantissa x) * c * 2 ^ nat (expo x)" 1]) (simp_all add: js_times_def)
  next
    case False
    have "(of_nat (nat (mantissa x) * c) / of_nat (2 ^ nat (- expo x)) :: rat) = ?y"
      using False assms by (simp add: dval_def)
    with False show ?thesis
      by (intro that[of "nat (mantissa x) * c" "2 ^ nat (- expo x)"]) (simp_all add: js_times_def)
  qed
  show ?thesis
  proof (cases "N = 0")
    case True
    with ND(3) have y: "?y = 0" by simp
    have "dval (js_times x c) = 0"
      unfolding ND(1) True nearest_double_zero by (simp add: dval_def)
    then show ?thesis
      unfolding y by simp
  next
    case False
    then have "0 < N" by simp
    from nearest_double_error[OF this ND(2)] show ?thesis
      by (simp add: ND(1) ND(3))
  qed
qed

lemma percentage_error:
  "\<bar>percentage ballots totalVotes - of_nat ballots / of_nat totalVotes * 100\<bar>
     \<le> (of_nat ballots / of_nat totalVotes * 100) / 2 ^ 51"
proof (cases "0 < ballots \<and> 0 < totalVotes")
  case False
  then show ?thesis
    by (auto simp: percentage_def nearest_double_zero js_times_def dval_def)
next
  case True
  let ?q = "of_nat ballots / of_nat totalVotes :: rat"
  let ?x = "nearest_double ballots totalVotes"
  let ?u = "1 / 2 ^ 53 :: rat"
  have q: "0 < ?q"
    using True by simp
  have p: "percentage ballots totalVotes = dval (js_times ?x 100)"
    using True by (simp add: percentage_def)
  have 1: "\<bar>dval ?x - ?q\<bar> \<le> ?q * ?u"
    using nearest_double_error[of ballots totalVotes] True by simp
  have 2: "\<bar>dval (js_times ?x 100) - dval ?x * 100\<bar> \<le> dval ?x * 100 * ?u"
    using js_times_error[OF nearest_double_mantissa, of ballots totalVotes 100] by simp
  from 1 have d: "dval ?x \<le> ?q + ?q * ?u"
    by linarith
  have "dval ?x * 100 * ?u \<le> (?q + ?q * ?u) * 100 * ?u"
    using d by (simp add: mult_right_mono)
  with 2 have 3: "\<bar>dval (js_times ?x 100) - dval ?x * 100\<bar> \<le> (?q + ?q * ?u) * 100 * ?u"
    by linarith
  have "\<bar>dval (js_times ?x 100) - ?q * 100\<bar>
      \<le> \<bar>dval (js_times ?x 100) - dval ?x * 100\<bar> + 100 * \<bar>dval ?x - ?q\<bar>"
    by (rule abs_triangle_scaled)
  also have "\<dots> \<le> (?q + ?q * ?u) * 100 * ?u + 100 * (?q * ?u)"
    by (intro add_mono mult_left_mono 1 3) simp
  also have "\<dots> = ?q * 100 * (2 * ?u + ?u * ?u)"
    by (simp add: algebra_simps)
  also have "\<dots> \<le> ?q * 100 * (1 / 2 ^ 51)"
    using q by (intro mult_left_mono) simp_all
  finally show ?thesis
    by (simp add: p)
qed

section \<open>Facts about the store operations\<close>

lemma update_unique_None: "update_unique P f xs = None \<longleftrightarrow> find P xs = None"
  by (induction xs) auto

lemma update_unique_Some:
  "find P xs = Some x \<Longrightarrow> \<exists>ys. update_unique P f xs = Some (f x, ys)"
  by (induction xs) (auto split: if_splits)

lemma update_unique_find:
  assumes "update_unique P f xs = Some (y, ys)" and "\<And>x. P x \<Longrightarrow> P (f x)"
  shows "\<exists>x. find P xs = Some x \<and> y = f x \<and> find P ys = Some (f x)"
  using assms by (induction xs arbitrary: ys) (auto split: if_splits)

lemma update_unique_length: "update_unique P f xs = Some (y, ys) \<Longrightarrow> length ys = length xs"
  by (induction xs arbitrary: ys) (auto split: if_splits)

section \<open>Minting\<close>

lemma mint_try_orders:
  "mint_try sch ch s orderId userId tokenAmount recipientAddress = (Inl e, s')
    \<Longrightarrow> orders s' = orders s"
  by (auto simp: mint_try_def ensure_sdk_def log_info_def log_error_def mint_create_def Let_def
      split: option.splits if_splits sum.splits prod.splits)

lemma mint_try_throws_iff:
  "(\<exists>e. fst (mint_try sch ch s orderId userId tokenAmount recipientAddress) = Inl e) \<longleftrightarrow>
     (\<not> sdk s \<and> \<not> initialize_ok ch)
     \<or> targetAddress recipientAddress (user_wallet s userId) = None
     \<or> (\<exists>addr. targetAddress recipientAddress (user_wallet s userId) = Some addr \<and>
          (\<not> getContract_ok ch \<or> mintTo ch addr tokenAmount = None
           \<or> (mint_orderId_unique sch \<and> (\<exists>m \<in> set (mints s). m_orderId m = orderId))))"
  by (auto simp: mint_try_def ensure_sdk_def log_info_def log_error_def mint_create_def Let_def
        user_wallet_def
      split: option.splits if_splits sum.splits prod.splits)

lemma mintTokens_fst:
  "fst (mintTokens sch ch s orderId userId tokenAmount recipientAddress)
     = fst (mint_try sch ch s orderId userId tokenAmount recipientAddress)"
  by (simp add: mintTokens_def split: prod.splits sum.splits)

text \<open>
  C10. \<open>mintTokens\<close> throws exactly when the SDK cannot be initialised, no address
  resolves (no wallet address and no recipient address), the contract cannot be fetched,
  the blockchain call is rejected, or the Mint row cannot be stored. Whenever it throws, the store it leaves has the status
  of every order with the given id set to failed, whatever that status was before (a
  completed order too), and no other order changed.
\<close>

theorem mintTokens_throw_marks_order_failed:
  "((\<exists>e. fst (mintTokens sch ch s orderId userId tokenAmount recipientAddress) = Inl e) \<longleftrightarrow>
      (\<not> sdk s \<and> \<not> initialize_ok ch)
      \<or> targetAddress recipientAddress (user_wallet s userId) = None
      \<or> (\<exists>addr. targetAddress recipientAddress (user_wallet s userId) = Some addr \<and>
           (\<not> getContract_ok ch \<or> mintTo ch addr tokenAmount = None
            \<or> (mint_orderId_unique sch \<and> (\<exists>m \<in> set (mints s). m_orderId m = orderId)))))
   \<and> (\<forall>e s'. mintTokens sch ch s orderId userId tokenAmount recipientAddress = (Inl e, s') \<longrightarrow>
        orders s' = map (\<lambda>r. if o_id r = orderId then r\<lparr>o_status := Failed\<rparr> else r) (orders s))"
proof (intro conjI allI impI)
  show "(\<exists>e. fst (mintTokens sch ch s orderId userId tokenAmount recipientAddress) = Inl e) \<longleftrightarrow>
      (\<not> sdk s \<and> \<not> initialize_ok ch)
      \<or> targetAddress recipientAddress (user_wallet s userId) = None
      \<or> (\<exists>addr. targetAddress recipientAddress (user_wallet s userId) = Some addr \<and>
           (\<not> getContract_ok ch \<or> mintTo ch addr tokenAmount = None
            \<or> (mint_orderId_unique sch \<and> (\<exists>m \<in> set (mints s). m_orderId m = orderId))))"
    unfolding mintTokens_fst by (rule mint_try_throws_iff)
next
  fix e s'
  assume "mintTokens sch ch s orderId userId tokenAmount recipientAddress = (Inl e, s')"
  then obtain s1
    where t: "mint_try sch ch s orderId userId tokenAmount recipientAddress = (Inl e, s1)"
      and s': "s' = order_updateMany (\<lambda>r. o_id r = orderId) Failed
                      (log_error ''Error minting tokens:'' e s1)"
    by (auto simp: mintTokens_def split: prod.splits sum.splits)
  from mint_try_orders[OF t] s'
  show "orders s' = map (\<lambda>r. if o_id r = orderId then r\<lparr>o_status := Failed\<rparr> else r) (orders s)"
    by (simp add: order_updateMany_def log_error_def)
qed

text \<open>
  The three causes on the completed order \<open>o1\<close>: the chain rejects; the Mint row
  exists already under the unique constraint; the user has no wallet and no recipient
  is given. Each time the completed order ends failed.
\<close>

theorem mintTokens_throw_marks_order_failed_witness:
  "fst (mintTokens spec_schema chain_rejects mint_store ''o1'' ''u1'' 100 None) = Inl SdkError
   \<and> map o_status (orders mint_store) = [Completed]
   \<and> map o_status (orders (snd (mintTokens spec_schema chain_rejects mint_store
          ''o1'' ''u1'' 100 None))) = [Failed]
   \<and> fst (mintTokens spec_schema (chain_accepts ''0xbbb'') mint_store ''o1'' ''u1'' 100 None)
       = Inl UniqueViolation
   \<and> map o_status (orders (snd (mintTokens spec_schema (chain_accepts ''0xbbb'') mint_store
          ''o1'' ''u1'' 100 None))) = [Failed]
   \<and> fst (mintTokens spec_schema (chain_accepts ''0xbbb'') (mint_store\<lparr>users := []\<rparr>)
          ''o1'' ''u1'' 100 None) = Inl UserWithoutWallet
   \<and> map o_status (orders (snd (mintTokens spec_schema (chain_accepts ''0xbbb'')
          (mint_store\<lparr>users := []\<rparr>) ''o1'' ''u1'' 100 None))) = [Failed]"
proof -
  let ?X1 = "mintTokens spec_schema chain_rejects mint_store ''o1'' ''u1'' 100 None"
  let ?X2 = "mintTokens spec_schema (chain_accepts ''0xbbb'') mint_store ''o1'' ''u1'' 100 None"
  let ?X3 = "mintTokens spec_schema (chain_accepts ''0xbbb'') (mint_store\<lparr>users := []\<rparr>)
               ''o1'' ''u1'' 100 None"
  have f: "fst ?X1 = Inl SdkError" "fst ?X2 = Inl UniqueViolation"
    "fst ?X3 = Inl UserWithoutWallet"
    by (simp_all add: mintTokens_def mint_try_def ensure_sdk_def targetAddress_def user_wallet_def
        truthy_def mint_create_def order_updateMany_def log_info_def log_error_def
        empty_store_def alice_def chain_accepts_def chain_rejects_def
        mint_store_def spec_schema_def bare_schema_def)
  have e: "?X1 = (Inl SdkError, snd ?X1)" "?X2 = (Inl UniqueViolation, snd ?X2)"
    "?X3 = (Inl UserWithoutWallet, snd ?X3)"
    using f by (simp_all add: prod_eq_iff)
  have o: "orders mint_store
      = [\<lparr>o_id = ''o1'', o_userId = ''u1'', o_productId = ''p1'', o_status = Completed\<rparr>]"
    by (simp add: empty_store_def alice_def chain_accepts_def chain_rejects_def
        mint_store_def spec_schema_def bare_schema_def)
  note T = mintTokens_throw_marks_order_failed [THEN conjunct2, rule_format]
  from T[OF e(1)] T[OF e(2)] T[OF e(3)] f show ?thesis
    by (simp add: o)
qed

text \<open>
  C1, as the code has it. \<open>mintTokens\<close> never reads the Mint table. Whenever the SDK
  and the contract are there and an address resolves, the call submits one more mint command to the
  blockchain, whether or not a Mint row exists for the order. If the blockchain rejects
  it the call throws; if it returns a transaction hash, the call stores a new Mint row
  with that hash and returns that hash, unless the store enforces unique
  \<open>Mint.orderId\<close> and a row for the order exists: then the call throws after the command
  was submitted, and the Mint table is as before.
\<close>

theorem mintTokens_resubmits:
  assumes "sdk s \<or> initialize_ok ch" and "getContract_ok ch"
    and "targetAddress recipientAddress (user_wallet s userId) = Some addr"
    and "mintTokens sch ch s orderId userId tokenAmount recipientAddress = (r, s')"
  shows "chain_cmds s' = chain_cmds s @ [(addr, tokenAmount)] \<and>
     (case mintTo ch addr tokenAmount of
        None \<Rightarrow> r = Inl SdkError \<and> mints s' = mints s
      | Some tx \<Rightarrow>
        if mint_orderId_unique sch \<and> (\<exists>m \<in> set (mints s). m_orderId m = orderId)
        then r = Inl UniqueViolation \<and> mints s' = mints s
        else r = Inr \<lparr>txHash = tx, success = True\<rparr> \<and>
             mints s' = mints s @ [\<lparr>m_orderId = orderId, m_userId = userId,
               m_tokenAmount = tokenAmount, m_txHash = tx, m_chainId = 137\<rparr>])"
  using assms
  by (auto simp: mintTokens_def mint_try_def ensure_sdk_def log_info_def log_error_def
        mint_create_def Let_def user_wallet_def order_updateMany_def
      split: option.splits if_splits sum.splits prod.splits)

text \<open>
  A second mint for \<open>o1\<close>, to an explicit recipient, without the unique constraint: a
  command goes to the chain, the new hash comes back, and the table has two rows.
\<close>

theorem mintTokens_resubmits_witness:
  "(sdk mint_store \<or> initialize_ok (chain_accepts ''0xccc''))
   \<and> getContract_ok (chain_accepts ''0xccc'')
   \<and> targetAddress (Some ''0xB0B'') (user_wallet mint_store ''u1'') = Some ''0xB0B''
   \<and> chain_cmds (snd (mintTokens bare_schema (chain_accepts ''0xccc'') mint_store
         ''o1'' ''u1'' 100 (Some ''0xB0B''))) = [(''0xB0B'', 100)]
   \<and> fst (mintTokens bare_schema (chain_accepts ''0xccc'') mint_store
         ''o1'' ''u1'' 100 (Some ''0xB0B'')) = Inr \<lparr>txHash = ''0xccc'', success = True\<rparr>
   \<and> map m_txHash (mints (snd (mintTokens bare_schema (chain_accepts ''0xccc'') mint_store
         ''o1'' ''u1'' 100 (Some ''0xB0B'')))) = [''0xaaa'', ''0xccc'']"
proof -
  let ?X = "mintTokens bare_schema (chain_accepts ''0xccc'') mint_store
              ''o1'' ''u1'' 100 (Some ''0xB0B'')"
  have h1: "sdk mint_store \<or> initialize_ok (chain_accepts ''0xccc'')"
    and hc: "getContract_ok (chain_accepts ''0xccc'')"
    by (simp_all add: empty_store_def alice_def chain_accepts_def chain_rejects_def
        mint_store_def spec_schema_def bare_schema_def)
  have h2: "targetAddress (Some ''0xB0B'') (user_wallet mint_store ''u1'') = Some ''0xB0B''"
    by (simp add: targetAddress_def truthy_def)
  have h3: "?X = (fst ?X, snd ?X)"
    by simp
  have m: "mintTo (chain_accepts ''0xccc'') ''0xB0B'' 100 = Some ''0xccc''"
    "mint_orderId_unique bare_schema = False" "chain_cmds mint_store = []"
    "map m_txHash (mints mint_store) = [''0xaaa'']"
    by (simp_all add: empty_store_def alice_def chain_accepts_def chain_rejects_def
        mint_store_def spec_schema_def bare_schema_def)
  from mintTokens_resubmits[OF h1 hc h2 h3] h1 hc h2 show ?thesis
    by (simp add: m)
qed

text \<open>
  C1, as stated, fails. The Mint row of \<open>o1\<close> holds hash \<open>0xaaa\<close>. With the unique
  constraint, a second call submits a command to the chain and then throws; without it,
  the call submits a command, returns the new hash \<open>0xbbb\<close> and leaves two Mint rows.
  Neither returns \<open>0xaaa\<close>, and both reach the blockchain.
\<close>

theorem mint_twice_counterexample:
  "map m_orderId (mints mint_store) = [''o1''] \<and> map m_txHash (mints mint_store) = [''0xaaa'']
   \<and> fst (mintTokens spec_schema (chain_accepts ''0xbbb'') mint_store ''o1'' ''u1'' 100 None)
       = Inl UniqueViolation
   \<and> chain_cmds (snd (mintTokens spec_schema (chain_accepts ''0xbbb'') mint_store
         ''o1'' ''u1'' 100 None)) = chain_cmds mint_store @ [(''0xA11CE'', 100)]
   \<and> fst (mintTokens bare_schema (chain_accepts ''0xbbb'') mint_store ''o1'' ''u1'' 100 None)
       = Inr \<lparr>txHash = ''0xbbb'', success = True\<rparr>
   \<and> chain_cmds (snd (mintTokens bare_schema (chain_accepts ''0xbbb'') mint_store
         ''o1'' ''u1'' 100 None)) = chain_cmds mint_store @ [(''0xA11CE'', 100)]
   \<and> map m_txHash (mints (snd (mintTokens bare_schema (chain_accepts ''0xbbb'') mint_store
         ''o1'' ''u1'' 100 None))) = [''0xaaa'', ''0xbbb'']"
  by (simp add: mintTokens_def mint_try_def ensure_sdk_def targetAddress_def user_wallet_def
        truthy_def mint_create_def order_updateMany_def log_info_def log_error_def
        empty_store_def alice_def chain_accepts_def chain_rejects_def
        mint_store_def spec_schema_def bare_schema_def)

section \<open>Settlement\<close>

lemma handleCheckoutCompleted_once:
  assumes "cs_metadata session = Some md" and "md ''orderId'' = Some oid" and "oid \<noteq> []"
    and "truthy (md ''userId'')" and "truthy (md ''productId'')"
    and "truthy (md ''tokenAmount'')"
    and "find (\<lambda>r. o_id r = oid) (orders s) = Some ord"
  shows "\<exists>s'. handleCheckoutCompleted s session = (Inr (), s')
     \<and> payments s' = payments s @
          [\<lparr>pay_orderId = oid, pay_provider = ''stripe'',
            pay_amountEur = amountEur (cs_amount_total session), pay_status = ''completed''\<rparr>]
     \<and> find (\<lambda>r. o_id r = oid) (orders s') = Some (ord\<lparr>o_status := Completed\<rparr>)"
proof -
  let ?P = "\<lambda>r. o_id r = oid" and ?f = "\<lambda>r. r\<lparr>o_status := Completed\<rparr>"
  obtain ys where u: "update_unique ?P ?f (orders s) = Some (?f ord, ys)"
    using update_unique_Some[OF assms(7)] by blast
  have "\<exists>x. find ?P (orders s) = Some x \<and> ?f ord = ?f x \<and> find ?P ys = Some (?f x)"
    by (rule update_unique_find[OF u]) simp
  with assms(7) have ys: "find ?P ys = Some (?f ord)"
    by simp
  obtain uid where uid: "md ''userId'' = Some uid"
    using assms(4) by (auto simp: truthy_def split: option.splits)
  show ?thesis
    using assms(1-6) u ys uid
    by (simp add: handleCheckoutCompleted_def order_update_def truthy_def log_info_def)
qed

text \<open>
  C2, as the code has it. For a session with complete metadata whose order exists,
  \<open>handleCheckoutCompleted\<close> succeeds, sets the order's status to completed whatever it
  was, and appends one Payment row (provider stripe, status completed, the amount in
  euros). It looks up no earlier delivery: delivered again, the same session succeeds
  again and appends a second Payment row.
\<close>

theorem handleCheckoutCompleted_repeats:
  assumes "cs_metadata session = Some md" and "md ''orderId'' = Some oid" and "oid \<noteq> []"
    and "truthy (md ''userId'')" and "truthy (md ''productId'')"
    and "truthy (md ''tokenAmount'')"
    and "find (\<lambda>r. o_id r = oid) (orders s) = Some ord"
    and "row = \<lparr>pay_orderId = oid, pay_provider = ''stripe'',
                 pay_amountEur = amountEur (cs_amount_total session), pay_status = ''completed''\<rparr>"
    and "once = handleCheckoutCompleted s session"
    and "twice = handleCheckoutCompleted (snd once) session"
  shows "fst once = Inr () \<and> payments (snd once) = payments s @ [row]
     \<and> find (\<lambda>r. o_id r = oid) (orders (snd once)) = Some (ord\<lparr>o_status := Completed\<rparr>)
     \<and> fst twice = Inr () \<and> payments (snd twice) = payments s @ [row, row]
     \<and> find (\<lambda>r. o_id r = oid) (orders (snd twice)) = Some (ord\<lparr>o_status := Completed\<rparr>)"
proof -
  obtain s1 where 1: "handleCheckoutCompleted s session = (Inr (), s1)"
      "payments s1 = payments s @ [row]"
      "find (\<lambda>r. o_id r = oid) (orders s1) = Some (ord\<lparr>o_status := Completed\<rparr>)"
    using handleCheckoutCompleted_once[OF assms(1-7)] assms(8) by blast
  obtain s2 where 2: "handleCheckoutCompleted s1 session = (Inr (), s2)"
      "payments s2 = payments s1 @ [row]"
      "find (\<lambda>r. o_id r = oid) (orders s2)
         = Some (ord\<lparr>o_status := Completed\<rparr>\<lparr>o_status := Completed\<rparr>)"
    using handleCheckoutCompleted_once[OF assms(1-6) 1(3)] assms(8) by blast
  show ?thesis
    using 1 2 assms(9,10) by simp
qed

theorem handleCheckoutCompleted_repeats_witness:
  "map o_status (orders settle_store) = [Pending]
   \<and> fst (handleCheckoutCompleted settle_store session_o1) = Inr ()
   \<and> map pay_amountEur (payments (snd (handleCheckoutCompleted settle_store session_o1))) = [50]
   \<and> map o_status (orders (snd (handleCheckoutCompleted settle_store session_o1))) = [Completed]
   \<and> fst (handleCheckoutCompleted (snd (handleCheckoutCompleted settle_store session_o1))
        session_o1) = Inr ()
   \<and> map pay_amountEur (payments (snd (handleCheckoutCompleted
        (snd (handleCheckoutCompleted settle_store session_o1)) session_o1))) = [50, 50]"
proof -
  let ?md = "[''orderId'' \<mapsto> ''o1'', ''userId'' \<mapsto> ''u1'', ''productId'' \<mapsto> ''p1'',
              ''tokenAmount'' \<mapsto> ''100'']"
  let ?ord = "\<lparr>o_id = ''o1'', o_userId = ''u1'', o_productId = ''p1'', o_status = Pending\<rparr>"
  have h: "cs_metadata session_o1 = Some ?md" "?md ''orderId'' = Some ''o1''" "''o1'' \<noteq> []"
    "truthy (?md ''userId'')" "truthy (?md ''productId'')" "truthy (?md ''tokenAmount'')"
    "find (\<lambda>r. o_id r = ''o1'') (orders settle_store) = Some ?ord"
    by (simp_all add: session_o1_def settle_store_def empty_store_def truthy_def)
  have a: "amountEur (cs_amount_total session_o1) = 50" "payments settle_store = []"
    "map o_status (orders settle_store) = [Pending]"
    by (simp_all add: session_o1_def settle_store_def empty_store_def amountEur_def)
  have o: "map o_status (orders (snd (handleCheckoutCompleted settle_store session_o1)))
      = [Completed]"
    by (simp add: handleCheckoutCompleted_def order_update_def truthy_def log_info_def
        session_o1_def settle_store_def empty_store_def)
  from handleCheckoutCompleted_repeats[OF h refl refl refl] show ?thesis
    by (simp add: a o)
qed

text \<open>
  C2, as stated, fails. Order \<open>o1\<close> is pending. The first delivery completes it and
  writes a Payment row, and the ledger stays empty. The second delivery of the same
  session is no no-op: it succeeds and writes a second Payment row for \<open>o1\<close>.
\<close>

theorem settle_twice_counterexample:
  "map o_status (orders settle_store) = [Pending] \<and> ledger settle_store = []
   \<and> fst (handleCheckoutCompleted settle_store session_o1) = Inr ()
   \<and> ledger (snd (handleCheckoutCompleted settle_store session_o1)) = []
   \<and> map pay_orderId (payments (snd (handleCheckoutCompleted settle_store session_o1)))
       = [''o1'']
   \<and> fst (handleCheckoutCompleted (snd (handleCheckoutCompleted settle_store session_o1))
        session_o1) = Inr ()
   \<and> map pay_orderId (payments (snd (handleCheckoutCompleted
        (snd (handleCheckoutCompleted settle_store session_o1)) session_o1))) = [''o1'', ''o1'']"
  by (simp add: handleCheckoutCompleted_def order_update_def truthy_def log_info_def
      session_o1_def settle_store_def empty_store_def amountEur_def)

section \<open>Redeeming a claim\<close>

lemma update_unique_keeps:
  "update_unique P f xs = Some (y, ys) \<Longrightarrow> c \<in> set xs \<Longrightarrow> find P xs \<noteq> Some c \<Longrightarrow> c \<in> set ys"
  by (induction xs arbitrary: ys) (auto split: if_splits)

lemma redeemPerk_not_found:
  assumes "find (\<lambda>c. pc_id c = claimId) (perkClaims s) = None"
  shows "redeemPerk s now claimId staffUserId
     = (Inl ClaimNotFound, log_error ''Error redeeming perk:'' ClaimNotFound s)"
  using assms by (simp add: redeemPerk_def redeem_find_def)

lemma redeemPerk_already:
  assumes "find (\<lambda>c. pc_id c = claimId) (perkClaims s) = Some c" and "pc_redeemedAt c = Some t"
  shows "redeemPerk s now claimId staffUserId
     = (Inl AlreadyRedeemed, log_error ''Error redeeming perk:'' AlreadyRedeemed s)"
  using assms by (simp add: redeemPerk_def redeem_find_def)

lemma redeem_update_found:
  assumes "find (\<lambda>c. pc_id c = claimId) (perkClaims s) = Some c"
  shows "\<exists>cs. update_unique (\<lambda>c. pc_id c = claimId) (\<lambda>c. c\<lparr>pc_redeemedAt := Some now\<rparr>)
                (perkClaims s) = Some (c\<lparr>pc_redeemedAt := Some now\<rparr>, cs)
     \<and> find (\<lambda>c. pc_id c = claimId) cs = Some (c\<lparr>pc_redeemedAt := Some now\<rparr>)
     \<and> redeem_update s now claimId staffUserId claim
        = (Inr (c\<lparr>pc_redeemedAt := Some now\<rparr>),
           log_info ''Perk redeemed''
             [(''claimId'', Str claimId), (''perkId'', Str (pc_perkId claim)),
              (''userId'', Str (pc_userId claim)), (''staffUserId'', Str staffUserId),
              (''redeemedAt'', Date now)]
             (s\<lparr>perkClaims := cs\<rparr>))"
proof -
  let ?P = "\<lambda>c. pc_id c = claimId" and ?f = "\<lambda>c. c\<lparr>pc_redeemedAt := Some now\<rparr>"
  obtain cs where u: "update_unique ?P ?f (perkClaims s) = Some (?f c, cs)"
    using update_unique_Some[OF assms] by blast
  have "\<exists>x. find ?P (perkClaims s) = Some x \<and> ?f c = ?f x \<and> find ?P cs = Some (?f x)"
    by (rule update_unique_find[OF u]) simp
  with assms have "find ?P cs = Some (?f c)"
    by simp
  with u show ?thesis
    by (simp add: redeem_update_def)
qed

lemma redeemPerk_fresh:
  assumes "find (\<lambda>c. pc_id c = claimId) (perkClaims s) = Some c" and "pc_redeemedAt c = None"
  shows "\<exists>cs. update_unique (\<lambda>c. pc_id c = claimId) (\<lambda>c. c\<lparr>pc_redeemedAt := Some now\<rparr>)
                (perkClaims s) = Some (c\<lparr>pc_redeemedAt := Some now\<rparr>, cs)
     \<and> find (\<lambda>c. pc_id c = claimId) cs = Some (c\<lparr>pc_redeemedAt := Some now\<rparr>)
     \<and> redeemPerk s now claimId staffUserId
        = (Inr (c\<lparr>pc_redeemedAt := Some now\<rparr>),
           log_info ''Perk redeemed''
             [(''claimId'', Str claimId), (''perkId'', Str (pc_perkId c)),
              (''userId'', Str (pc_userId c)), (''staffUserId'', Str staffUserId),
              (''redeemedAt'', Date now)]
             (s\<lparr>perkClaims := cs\<rparr>))"
proof -
  from redeem_update_found[OF assms(1), of now staffUserId c]
  obtain cs where "update_unique (\<lambda>c. pc_id c = claimId) (\<lambda>c. c\<lparr>pc_redeemedAt := Some now\<rparr>)
                (perkClaims s) = Some (c\<lparr>pc_redeemedAt := Some now\<rparr>, cs)"
    and "find (\<lambda>c. pc_id c = claimId) cs = Some (c\<lparr>pc_redeemedAt := Some now\<rparr>)"
    and "redeem_update s now claimId staffUserId c
        = (Inr (c\<lparr>pc_redeemedAt := Some now\<rparr>),
           log_info ''Perk redeemed''
             [(''claimId'', Str claimId), (''perkId'', Str (pc_perkId c)),
              (''userId'', Str (pc_userId c)), (''staffUserId'', Str staffUserId),
              (''redeemedAt'', Date now)]
             (s\<lparr>perkClaims := cs\<rparr>))"
    by blast
  with assms show ?thesis
    by (simp add: redeemPerk_def redeem_find_def)
qed

lemma redeemPerk_keeps_stamped:
  assumes "c \<in> set (perkClaims s)" and "pc_redeemedAt c \<noteq> None"
  shows "c \<in> set (perkClaims (snd (redeemPerk s now claimId staffUserId)))"
proof (cases "find (\<lambda>c. pc_id c = claimId) (perkClaims s)")
  case None
  then show ?thesis
    using assms(1) by (simp add: redeemPerk_not_found log_error_def)
next
  case (Some d)
  show ?thesis
  proof (cases "pc_redeemedAt d")
    case None
    from redeemPerk_fresh[OF Some None, of now staffUserId]
    obtain cs where u: "update_unique (\<lambda>c. pc_id c = claimId)
          (\<lambda>c. c\<lparr>pc_redeemedAt := Some now\<rparr>) (perkClaims s)
          = Some (d\<lparr>pc_redeemedAt := Some now\<rparr>, cs)"
      and r: "perkClaims (snd (redeemPerk s now claimId staffUserId)) = cs"
      by (auto simp: log_info_def)
    have "find (\<lambda>c. pc_id c = claimId) (perkClaims s) \<noteq> Some c"
      using Some None assms(2) by auto
    from update_unique_keeps[OF u assms(1) this] r show ?thesis
      by simp
  next
    case (Some t)
    with \<open>find (\<lambda>c. pc_id c = claimId) (perkClaims s) = Some d\<close> show ?thesis
      using assms(1) by (simp add: redeemPerk_already log_error_def)
  qed
qed

text \<open>
  C3. \<open>redeemPerk\<close> succeeds exactly when the claim exists and its \<open>redeemedAt\<close> is
  null. Then it returns the claim stamped with the time of the call, the store holds the
  claim so stamped, and the log line "Perk redeemed" names the staff user; a further call
  for the claim, at any time by anyone, fails with \<open>AlreadyRedeemed\<close> and leaves the
  claims as they are. A call on a claim already redeemed fails with \<open>AlreadyRedeemed\<close>
  and changes no claim; a call on an unknown id fails with \<open>ClaimNotFound\<close>. No call,
  whatever its arguments, changes a claim that has its \<open>redeemedAt\<close>.
\<close>

theorem redeemPerk_exactly_once:
  "((\<exists>c'. fst (redeemPerk s now claimId staffUserId) = Inr c') \<longleftrightarrow>
      (\<exists>c. find (\<lambda>c. pc_id c = claimId) (perkClaims s) = Some c \<and> pc_redeemedAt c = None))
   \<and> (\<forall>c. find (\<lambda>c. pc_id c = claimId) (perkClaims s) = Some c \<and> pc_redeemedAt c = None \<longrightarrow>
        fst (redeemPerk s now claimId staffUserId) = Inr (c\<lparr>pc_redeemedAt := Some now\<rparr>)
        \<and> find (\<lambda>c. pc_id c = claimId) (perkClaims (snd (redeemPerk s now claimId staffUserId)))
            = Some (c\<lparr>pc_redeemedAt := Some now\<rparr>)
        \<and> logs (snd (redeemPerk s now claimId staffUserId)) = logs s @
            [LogInfo ''Perk redeemed''
               [(''claimId'', Str claimId), (''perkId'', Str (pc_perkId c)),
                (''userId'', Str (pc_userId c)), (''staffUserId'', Str staffUserId),
                (''redeemedAt'', Date now)]]
        \<and> fst (redeemPerk (snd (redeemPerk s now claimId staffUserId)) later claimId staff')
            = Inl AlreadyRedeemed
        \<and> perkClaims (snd (redeemPerk (snd (redeemPerk s now claimId staffUserId))
              later claimId staff'))
            = perkClaims (snd (redeemPerk s now claimId staffUserId)))
   \<and> (\<forall>c t. find (\<lambda>c. pc_id c = claimId) (perkClaims s) = Some c \<and> pc_redeemedAt c = Some t \<longrightarrow>
        fst (redeemPerk s now claimId staffUserId) = Inl AlreadyRedeemed
        \<and> perkClaims (snd (redeemPerk s now claimId staffUserId)) = perkClaims s)
   \<and> (find (\<lambda>c. pc_id c = claimId) (perkClaims s) = None \<longrightarrow>
        fst (redeemPerk s now claimId staffUserId) = Inl ClaimNotFound
        \<and> perkClaims (snd (redeemPerk s now claimId staffUserId)) = perkClaims s)
   \<and> (\<forall>c \<in> set (perkClaims s). pc_redeemedAt c \<noteq> None \<longrightarrow>
        c \<in> set (perkClaims (snd (redeemPerk s now claimId staffUserId))))"
proof (intro conjI allI impI ballI)
  show "(\<exists>c'. fst (redeemPerk s now claimId staffUserId) = Inr c') \<longleftrightarrow>
      (\<exists>c. find (\<lambda>c. pc_id c = claimId) (perkClaims s) = Some c \<and> pc_redeemedAt c = None)"
    by (auto simp: redeemPerk_def redeem_find_def redeem_update_def update_unique_None
        split: option.splits if_splits prod.splits sum.splits)
next
  fix c
  assume a: "find (\<lambda>c. pc_id c = claimId) (perkClaims s) = Some c \<and> pc_redeemedAt c = None"
  then have a1: "find (\<lambda>c. pc_id c = claimId) (perkClaims s) = Some c"
    and a2: "pc_redeemedAt c = None"
    by simp_all
  from redeemPerk_fresh[OF a1 a2, of now staffUserId]
  obtain cs where f: "find (\<lambda>c. pc_id c = claimId) cs = Some (c\<lparr>pc_redeemedAt := Some now\<rparr>)"
    and r: "redeemPerk s now claimId staffUserId
        = (Inr (c\<lparr>pc_redeemedAt := Some now\<rparr>),
           log_info ''Perk redeemed''
             [(''claimId'', Str claimId), (''perkId'', Str (pc_perkId c)),
              (''userId'', Str (pc_userId c)), (''staffUserId'', Str staffUserId),
              (''redeemedAt'', Date now)]
             (s\<lparr>perkClaims := cs\<rparr>))"
    by blast
  let ?s' = "snd (redeemPerk s now claimId staffUserId)"
  have f': "find (\<lambda>c. pc_id c = claimId) (perkClaims ?s') = Some (c\<lparr>pc_redeemedAt := Some now\<rparr>)"
    using f r by (simp add: log_info_def)
  have st: "pc_redeemedAt (c\<lparr>pc_redeemedAt := Some now\<rparr>) = Some now"
    by simp
  show "fst (redeemPerk s now claimId staffUserId) = Inr (c\<lparr>pc_redeemedAt := Some now\<rparr>)"
    using r by simp
  show "find (\<lambda>c. pc_id c = claimId) (perkClaims ?s') = Some (c\<lparr>pc_redeemedAt := Some now\<rparr>)"
    by (rule f')
  show "logs ?s' = logs s @
            [LogInfo ''Perk redeemed''
               [(''claimId'', Str claimId), (''perkId'', Str (pc_perkId c)),
                (''userId'', Str (pc_userId c)), (''staffUserId'', Str staffUserId),
                (''redeemedAt'', Date now)]]"
    using r by (simp add: log_info_def)
  show "fst (redeemPerk ?s' later claimId staff') = Inl AlreadyRedeemed"
    by (simp add: redeemPerk_already[OF f' st])
  show "perkClaims (snd (redeemPerk ?s' later claimId staff')) = perkClaims ?s'"
    by (simp add: redeemPerk_already[OF f' st] log_error_def)
next
  fix c t
  assume a: "find (\<lambda>c. pc_id c = claimId) (perkClaims s) = Some c \<and> pc_redeemedAt c = Some t"
  then have r: "redeemPerk s now claimId staffUserId
     = (Inl AlreadyRedeemed, log_error ''Error redeeming perk:'' AlreadyRedeemed s)"
    by (simp add: redeemPerk_already)
  show "fst (redeemPerk s now claimId staffUserId) = Inl AlreadyRedeemed"
    using r by simp
  show "perkClaims (snd (redeemPerk s now claimId staffUserId)) = perkClaims s"
    using r by (simp add: log_error_def)
next
  assume a: "find (\<lambda>c. pc_id c = claimId) (perkClaims s) = None"
  show "fst (redeemPerk s now claimId staffUserId) = Inl ClaimNotFound"
    by (simp add: redeemPerk_not_found[OF a])
  show "perkClaims (snd (redeemPerk s now claimId staffUserId)) = perkClaims s"
    by (simp add: redeemPerk_not_found[OF a] log_error_def)
next
  fix c
  assume "c \<in> set (perkClaims s)" and "pc_redeemedAt c \<noteq> None"
  then show "c \<in> set (perkClaims (snd (redeemPerk s now claimId staffUserId)))"
    by (rule redeemPerk_keeps_stamped)
qed

text \<open>
  Claim \<open>c1\<close> is redeemed at time 1000 by staff user \<open>s1\<close>; the attempt of \<open>s2\<close> at
  time 2000 fails; there is no claim \<open>c9\<close>.
\<close>

theorem redeemPerk_exactly_once_witness:
  "find (\<lambda>c. pc_id c = ''c1'') (perkClaims perk_store) = Some claim_c1
   \<and> pc_redeemedAt claim_c1 = None
   \<and> fst (redeemPerk perk_store 1000 ''c1'' ''s1'') = Inr (claim_c1\<lparr>pc_redeemedAt := Some 1000\<rparr>)
   \<and> find (\<lambda>c. pc_id c = ''c1'') (perkClaims (snd (redeemPerk perk_store 1000 ''c1'' ''s1'')))
       = Some (claim_c1\<lparr>pc_redeemedAt := Some 1000\<rparr>)
   \<and> fst (redeemPerk (snd (redeemPerk perk_store 1000 ''c1'' ''s1'')) 2000 ''c1'' ''s2'')
       = Inl AlreadyRedeemed
   \<and> perkClaims (snd (redeemPerk (snd (redeemPerk perk_store 1000 ''c1'' ''s1''))
         2000 ''c1'' ''s2''))
       = perkClaims (snd (redeemPerk perk_store 1000 ''c1'' ''s1''))
   \<and> find (\<lambda>c. pc_id c = ''c9'') (perkClaims perk_store) = None
   \<and> fst (redeemPerk perk_store 1000 ''c9'' ''s1'') = Inl ClaimNotFound"
proof -
  have h: "find (\<lambda>c. pc_id c = ''c1'') (perkClaims perk_store) = Some claim_c1
      \<and> pc_redeemedAt claim_c1 = None"
    by (simp add: perk_store_def empty_store_def claim_c1_def)
  have n: "find (\<lambda>c. pc_id c = ''c9'') (perkClaims perk_store) = None"
    by (simp add: perk_store_def empty_store_def)
  note T = redeemPerk_exactly_once[of perk_store 1000 "''c1''" "''s1''" 2000 "''s2''"]
  note N = redeemPerk_exactly_once[of perk_store 1000 "''c9''" "''s1''" 2000 "''s2''"]
  from T[THEN conjunct2, THEN conjunct1, rule_format, OF h]
       N[THEN conjunct2, THEN conjunct2, THEN conjunct2, THEN conjunct1, rule_format, OF n]
       h n
  show ?thesis
    by simp
qed

section \<open>Two redeem calls at once\<close>

lemma redeem_two_steps:
  "(case redeem_step rq Started s of (a, s1) \<Rightarrow> redeem_step rq a s1)
     = (Returned (fst (redeemPerk s (rq_now rq) (rq_claimId rq) (rq_staffUserId rq))),
        snd (redeemPerk s (rq_now rq) (rq_claimId rq) (rq_staffUserId rq)))"
  by (simp add: redeemPerk_def split: sum.splits prod.splits)

lemma redeem_step_find:
  assumes "find (\<lambda>c. pc_id c = rq_claimId rq) (perkClaims s) = Some c"
  shows "redeem_step rq Started s
     = (if pc_redeemedAt c \<noteq> None
        then (Returned (Inl AlreadyRedeemed),
              log_error ''Error redeeming perk:'' AlreadyRedeemed s)
        else (Checked c, s))"
  using assms by (simp add: redeem_find_def)

lemma redeem_step_update:
  assumes "find (\<lambda>c. pc_id c = rq_claimId rq) (perkClaims s) = Some c"
  shows "\<exists>s'. redeem_step rq (Checked claim) s
        = (Returned (Inr (c\<lparr>pc_redeemedAt := Some (rq_now rq)\<rparr>)), s')
     \<and> find (\<lambda>c. pc_id c = rq_claimId rq) (perkClaims s')
        = Some (c\<lparr>pc_redeemedAt := Some (rq_now rq)\<rparr>)"
proof -
  from redeem_update_found[OF assms, of "rq_now rq" "rq_staffUserId rq" claim]
  show ?thesis
    by (auto simp: log_info_def)
qed

text \<open>
  C9, as the code has it. A call of \<open>redeemPerk\<close> is the two steps of \<open>redeem_step\<close>
  (taken without a pause they are \<open>redeemPerk\<close>), and the update of the second step is
  keyed by the claim's id alone: nothing compares \<open>redeemedAt\<close> with null at the
  write. For two calls on a claim that exists and is not redeemed: if the second call
  starts after the first has returned, the first succeeds, the second fails with
  \<open>AlreadyRedeemed\<close> and the claim keeps the first call's time; if both calls read
  before either writes, both succeed, and the claim ends with the time of the later
  write.
\<close>

theorem redeem_calls_interleaved:
  assumes "find (\<lambda>c. pc_id c = claimId) (perkClaims s) = Some c" and "pc_redeemedAt c = None"
    and "rq_claimId rqA = claimId" and "rq_claimId rqB = claimId"
    and "run_redeems rqA rqB [First, First, Second, Second] (Started, Started, s) = (a, b, s')"
    and "run_redeems rqA rqB [First, Second, First, Second] (Started, Started, s) = (a2, b2, s2)"
  shows "(case redeem_step rqA Started s of (x, s1) \<Rightarrow> redeem_step rqA x s1)
       = (Returned (fst (redeemPerk s (rq_now rqA) claimId (rq_staffUserId rqA))),
          snd (redeemPerk s (rq_now rqA) claimId (rq_staffUserId rqA)))
     \<and> a = Returned (Inr (c\<lparr>pc_redeemedAt := Some (rq_now rqA)\<rparr>))
     \<and> b = Returned (Inl AlreadyRedeemed)
     \<and> find (\<lambda>c. pc_id c = claimId) (perkClaims s') = Some (c\<lparr>pc_redeemedAt := Some (rq_now rqA)\<rparr>)
     \<and> a2 = Returned (Inr (c\<lparr>pc_redeemedAt := Some (rq_now rqA)\<rparr>))
     \<and> b2 = Returned (Inr (c\<lparr>pc_redeemedAt := Some (rq_now rqB)\<rparr>))
     \<and> find (\<lambda>c. pc_id c = claimId) (perkClaims s2) = Some (c\<lparr>pc_redeemedAt := Some (rq_now rqB)\<rparr>)"
proof -
  let ?P = "\<lambda>c. pc_id c = claimId"
  let ?cA = "c\<lparr>pc_redeemedAt := Some (rq_now rqA)\<rparr>"
  have fA: "find (\<lambda>c. pc_id c = rq_claimId rqA) (perkClaims s) = Some c"
    and fB: "find (\<lambda>c. pc_id c = rq_claimId rqB) (perkClaims s) = Some c"
    using assms(1,3,4) by simp_all
  have A1: "redeem_step rqA Started s = (Checked c, s)"
    and B1: "redeem_step rqB Started s = (Checked c, s)"
    using redeem_step_find[OF fA] redeem_step_find[OF fB] assms(2) by simp_all
  obtain sA where A2: "redeem_step rqA (Checked c) s = (Returned (Inr ?cA), sA)"
    and fsA: "find (\<lambda>c. pc_id c = rq_claimId rqA) (perkClaims sA) = Some ?cA"
    using redeem_step_update[OF fA, of c] by blast
  have fsB: "find (\<lambda>c. pc_id c = rq_claimId rqB) (perkClaims sA) = Some ?cA"
    using fsA assms(3,4) by simp
  text \<open>The second call starts once the first has returned.\<close>
  have B1': "redeem_step rqB Started sA
     = (Returned (Inl AlreadyRedeemed), log_error ''Error redeeming perk:'' AlreadyRedeemed sA)"
    using redeem_step_find[OF fsB] by simp
  have seq: "run_redeems rqA rqB [First, First, Second, Second] (Started, Started, s)
     = (Returned (Inr ?cA), Returned (Inl AlreadyRedeemed),
        log_error ''Error redeeming perk:'' AlreadyRedeemed sA)"
    by (simp add: A1 A2 B1' del: redeem_step.simps(1) redeem_step.simps(2))
  text \<open>Both calls read, then both write.\<close>
  obtain sB where B2: "redeem_step rqB (Checked c) sA
        = (Returned (Inr (?cA\<lparr>pc_redeemedAt := Some (rq_now rqB)\<rparr>)), sB)"
    and fsB': "find (\<lambda>c. pc_id c = rq_claimId rqB) (perkClaims sB)
        = Some (?cA\<lparr>pc_redeemedAt := Some (rq_now rqB)\<rparr>)"
    using redeem_step_update[OF fsB, of c] by blast
  have par: "run_redeems rqA rqB [First, Second, First, Second] (Started, Started, s)
     = (Returned (Inr ?cA), Returned (Inr (?cA\<lparr>pc_redeemedAt := Some (rq_now rqB)\<rparr>)), sB)"
    by (simp add: A1 A2 B1 B2 del: redeem_step.simps(1) redeem_step.simps(2))
  have two: "(case redeem_step rqA Started s of (x, s1) \<Rightarrow> redeem_step rqA x s1)
       = (Returned (fst (redeemPerk s (rq_now rqA) claimId (rq_staffUserId rqA))),
          snd (redeemPerk s (rq_now rqA) claimId (rq_staffUserId rqA)))"
    using redeem_two_steps[of rqA s] assms(3) by simp
  have r1: "a = Returned (Inr ?cA)" "b = Returned (Inl AlreadyRedeemed)"
    "s' = log_error ''Error redeeming perk:'' AlreadyRedeemed sA"
    using assms(5)[unfolded seq] by simp_all
  have r2: "a2 = Returned (Inr ?cA)"
    "b2 = Returned (Inr (?cA\<lparr>pc_redeemedAt := Some (rq_now rqB)\<rparr>))" "s2 = sB"
    using assms(6)[unfolded par] by simp_all
  have "find ?P (perkClaims s') = Some ?cA"
    using fsA assms(3) r1(3) by (simp add: log_error_def)
  moreover have "find ?P (perkClaims s2) = Some (c\<lparr>pc_redeemedAt := Some (rq_now rqB)\<rparr>)"
    using fsB' assms(4) r2(3) by simp
  ultimately show ?thesis
    using r1(1,2) r2(1,2) two by simp
qed

text \<open>
  C9, as stated, fails. Staff users \<open>s1\<close> and \<open>s2\<close> both ask to redeem \<open>c1\<close>; each
  reads the claim before the other writes. Both calls succeed: after the first write
  the claim carries time 1000, after the second time 2000.
\<close>

theorem concurrent_redeem_counterexample:
  "succeeded (fst (run_redeems staff_one staff_two [First, Second, First, Second]
      (Started, Started, perk_store)))
   \<and> succeeded (fst (snd (run_redeems staff_one staff_two [First, Second, First, Second]
      (Started, Started, perk_store))))
   \<and> map pc_redeemedAt (perkClaims (snd (snd (run_redeems staff_one staff_two
      [First, Second, First] (Started, Started, perk_store))))) = [Some 1000]
   \<and> map pc_redeemedAt (perkClaims (snd (snd (run_redeems staff_one staff_two
      [First, Second, First, Second] (Started, Started, perk_store))))) = [Some 2000]"
  by (simp add: succeeded_def redeem_find_def redeem_update_def log_info_def
      staff_one_def staff_two_def perk_store_def empty_store_def)

theorem redeem_calls_interleaved_witness:
  "find (\<lambda>c. pc_id c = ''c1'') (perkClaims perk_store) = Some claim_c1
   \<and> pc_redeemedAt claim_c1 = None
   \<and> fst (run_redeems staff_one staff_two [First, First, Second, Second]
        (Started, Started, perk_store))
       = Returned (Inr (claim_c1\<lparr>pc_redeemedAt := Some 1000\<rparr>))
   \<and> fst (snd (run_redeems staff_one staff_two [First, First, Second, Second]
        (Started, Started, perk_store)))
       = Returned (Inl AlreadyRedeemed)
   \<and> fst (run_redeems staff_one staff_two [First, Second, First, Second]
        (Started, Started, perk_store))
       = Returned (Inr (claim_c1\<lparr>pc_redeemedAt := Some 1000\<rparr>))
   \<and> fst (snd (run_redeems staff_one staff_two [First, Second, First, Second]
        (Started, Started, perk_store)))
       = Returned (Inr (claim_c1\<lparr>pc_redeemedAt := Some 2000\<rparr>))
   \<and> find (\<lambda>c. pc_id c = ''c1'') (perkClaims (snd (snd (run_redeems staff_one staff_two
        [First, Second, First, Second] (Started, Started, perk_store)))))
       = Some (claim_c1\<lparr>pc_redeemedAt := Some 2000\<rparr>)"
proof -
  have h: "find (\<lambda>c. pc_id c = ''c1'') (perkClaims perk_store) = Some claim_c1"
    "pc_redeemedAt claim_c1 = None" "rq_claimId staff_one = ''c1''" "rq_claimId staff_two = ''c1''"
    by (simp_all add: perk_store_def empty_store_def claim_c1_def staff_one_def staff_two_def)
  have t: "rq_now staff_one = 1000" "rq_now staff_two = 2000"
    by (simp_all add: staff_one_def staff_two_def)
  have p: "\<And>x. x = (fst x, fst (snd x), snd (snd x))"
    by simp
  from redeem_calls_interleaved[OF h p p] h show ?thesis
    by (simp add: t)
qed

section \<open>Removing options and perks\<close>

lemma deletePerk_found:
  assumes "find (\<lambda>p. p_id p = perkId) (perks s) = Some p"
  shows "\<exists>ps. deletePerk s perkId
        = (Inr (), log_info ''Perk deactivated'' [(''perkId'', Str perkId)] (s\<lparr>perks := ps\<rparr>))
     \<and> find (\<lambda>p. p_id p = perkId) ps = Some (p\<lparr>p_active := False\<rparr>)
     \<and> length ps = length (perks s)"
proof -
  let ?P = "\<lambda>p. p_id p = perkId" and ?f = "\<lambda>p. p\<lparr>p_active := False\<rparr>"
  obtain ps where u: "update_unique ?P ?f (perks s) = Some (?f p, ps)"
    using update_unique_Some[OF assms] by blast
  have "\<exists>x. find ?P (perks s) = Some x \<and> ?f p = ?f x \<and> find ?P ps = Some (?f x)"
    by (rule update_unique_find[OF u]) simp
  with assms have "find ?P ps = Some (?f p)"
    by simp
  with u update_unique_length[OF u] show ?thesis
    by (intro exI[of _ ps]) (simp add: deletePerk_def)
qed

text \<open>
  C8, as the code has it. \<open>removeVoteOption\<close> rejects an option that any ballot
  references, and deletes nothing. \<open>deletePerk\<close> reads no claim: for every perk that
  exists, with claims or without, it succeeds and sets the perk's \<open>active\<close> to false;
  the perk row stays in the table and every claim stays as it is.
\<close>

theorem removal_guards:
  "(0 < length (filter (\<lambda>b. vb_optionId b = optionId) (voteBallots s)) \<longrightarrow>
      fst (removeVoteOption s optionId) = Inl OptionHasVotes
      \<and> voteOptions (snd (removeVoteOption s optionId)) = voteOptions s
      \<and> voteBallots (snd (removeVoteOption s optionId)) = voteBallots s)
   \<and> (\<forall>p. find (\<lambda>p. p_id p = perkId) (perks s) = Some p \<longrightarrow>
      fst (deletePerk s perkId) = Inr ()
      \<and> find (\<lambda>p. p_id p = perkId) (perks (snd (deletePerk s perkId)))
          = Some (p\<lparr>p_active := False\<rparr>)
      \<and> length (perks (snd (deletePerk s perkId))) = length (perks s)
      \<and> perkClaims (snd (deletePerk s perkId)) = perkClaims s)"
proof (intro conjI allI impI)
  assume "0 < length (filter (\<lambda>b. vb_optionId b = optionId) (voteBallots s))"
  then have r: "removeVoteOption s optionId
      = (Inl OptionHasVotes, log_error ''Error removing vote option:'' OptionHasVotes s)"
    by (simp add: removeVoteOption_def)
  show "fst (removeVoteOption s optionId) = Inl OptionHasVotes"
    and "voteOptions (snd (removeVoteOption s optionId)) = voteOptions s"
    and "voteBallots (snd (removeVoteOption s optionId)) = voteBallots s"
    by (simp_all add: r log_error_def)
next
  fix p
  assume "find (\<lambda>p. p_id p = perkId) (perks s) = Some p"
  from deletePerk_found[OF this] obtain ps
    where r: "deletePerk s perkId
        = (Inr (), log_info ''Perk deactivated'' [(''perkId'', Str perkId)] (s\<lparr>perks := ps\<rparr>))"
      and f: "find (\<lambda>p. p_id p = perkId) ps = Some (p\<lparr>p_active := False\<rparr>)"
      and l: "length ps = length (perks s)"
    by blast
  show "fst (deletePerk s perkId) = Inr ()"
    and "find (\<lambda>p. p_id p = perkId) (perks (snd (deletePerk s perkId)))
          = Some (p\<lparr>p_active := False\<rparr>)"
    and "length (perks (snd (deletePerk s perkId))) = length (perks s)"
    and "perkClaims (snd (deletePerk s perkId)) = perkClaims s"
    using f l by (simp_all add: r log_info_def)
qed

text \<open>
  Option \<open>oa\<close> of vote \<open>v1\<close> has three ballots and cannot be removed; perk \<open>p1\<close> has
  claim \<open>c1\<close> and is deactivated all the same.
\<close>

theorem removal_guards_witness:
  "0 < length (filter (\<lambda>b. vb_optionId b = ''oa'') (voteBallots vote_store))
   \<and> fst (removeVoteOption vote_store ''oa'') = Inl OptionHasVotes
   \<and> voteOptions (snd (removeVoteOption vote_store ''oa'')) = voteOptions vote_store
   \<and> find (\<lambda>p. p_id p = ''p1'') (perks perk_store)
       = Some \<lparr>p_id = ''p1'', p_name = ''Coffee'', p_tokenCost = 10, p_active = True\<rparr>
   \<and> fst (deletePerk perk_store ''p1'') = Inr ()
   \<and> find (\<lambda>p. p_id p = ''p1'') (perks (snd (deletePerk perk_store ''p1'')))
       = Some \<lparr>p_id = ''p1'', p_name = ''Coffee'', p_tokenCost = 10, p_active = False\<rparr>
   \<and> perkClaims (snd (deletePerk perk_store ''p1'')) = perkClaims perk_store"
proof -
  have h1: "0 < length (filter (\<lambda>b. vb_optionId b = ''oa'') (voteBallots vote_store))"
    by (simp add: vote_store_def empty_store_def)
  have h2: "find (\<lambda>p. p_id p = ''p1'') (perks perk_store)
       = Some \<lparr>p_id = ''p1'', p_name = ''Coffee'', p_tokenCost = 10, p_active = True\<rparr>"
    by (simp add: perk_store_def empty_store_def)
  from removal_guards[of "''oa''" vote_store "''p1''", THEN conjunct1, rule_format, OF h1]
       removal_guards[of "''oa''" perk_store "''p1''", THEN conjunct2, rule_format, OF h2]
       h1 h2
  show ?thesis
    by simp
qed

text \<open>
  C8, as stated, fails for perks. Perk \<open>p1\<close> has the claim \<open>c1\<close>; \<open>deletePerk\<close> does
  not fail on it: it returns normally and the perk is inactive afterwards.
\<close>

theorem deletePerk_with_claims_counterexample:
  "map pc_perkId (perkClaims perk_store) = [''p1'']
   \<and> map p_active (perks perk_store) = [True]
   \<and> fst (deletePerk perk_store ''p1'') = Inr ()
   \<and> map p_active (perks (snd (deletePerk perk_store ''p1''))) = [False]"
  by (simp add: deletePerk_def log_info_def perk_store_def empty_store_def)

section \<open>Claiming a perk\<close>

text \<open>
  The claim code determines the clock value and the random bytes it was built from:
  two codes built from the same number of bytes are equal only if the clock values and
  the bytes are.
\<close>

declare toString36.simps [simp del]

lemma upper_digit_code:
  "d < 36 \<Longrightarrow>
     (of_char (upper_char (digit_char d)) :: nat) = (if d < 10 then 48 + d else 55 + d)"
  by (simp add: upper_char_def digit_char_def)

lemma upper_digit_inj:
  assumes "upper_char (digit_char a) = upper_char (digit_char b)" "a < 36" "b < 36"
  shows "a = b"
proof -
  have "(of_char (upper_char (digit_char a)) :: nat) = of_char (upper_char (digit_char b))"
    using assms(1) by simp
  then show ?thesis
    using assms(2,3) by (simp add: upper_digit_code split: if_splits)
qed

lemma digit_char_inj:
  "digit_char a = digit_char b \<Longrightarrow> a < 36 \<Longrightarrow> b < 36 \<Longrightarrow> a = b"
  by (rule upper_digit_inj) simp_all

lemma upper_char_inj_on_digits:
  "inj_on upper_char (digit_char ` {..<36})"
  by (auto simp: inj_on_def dest: upper_digit_inj)

lemma toString36_digits:
  "set (toString36 n) \<subseteq> digit_char ` {..<36}"
proof (induction n rule: toString36.induct)
  case (1 n)
  show ?case
  proof (cases "n < 36")
    case True
    then show ?thesis
      by (simp add: toString36.simps[of n])
  next
    case False
    have "n mod 36 < 36"
      by simp
    with False 1 show ?thesis
      by (auto simp: toString36.simps[of n])
  qed
qed

lemma toString36_length:
  "toString36 n \<noteq> [] \<and> (36 \<le> n \<longrightarrow> 2 \<le> length (toString36 n))"
proof (induction n rule: toString36.induct)
  case (1 n)
  then show ?case
    by (cases "n < 36") (auto simp: toString36.simps[of n] Suc_le_eq)
qed

lemma toString36_inj:
  "toString36 n = toString36 m \<Longrightarrow> n = m"
proof (induction n arbitrary: m rule: toString36.induct)
  case (1 n)
  have len: "length (toString36 n) = length (toString36 m)"
    using 1(2) by simp
  show ?case
  proof (cases "n < 36")
    case n: True
    show ?thesis
    proof (cases "m < 36")
      case True
      with n 1(2) show ?thesis
        by (simp add: toString36.simps[of n] toString36.simps[of m] digit_char_inj)
    next
      case False
      with toString36_length[of m] have "2 \<le> length (toString36 m)"
        by simp
      moreover have "length (toString36 n) = 1"
        using n by (simp add: toString36.simps[of n])
      ultimately show ?thesis
        using len by simp
    qed
  next
    case n: False
    show ?thesis
    proof (cases "m < 36")
      case True
      from n toString36_length[of n] have "2 \<le> length (toString36 n)"
        by simp
      moreover have "length (toString36 m) = 1"
        using True by (simp add: toString36.simps[of m])
      ultimately show ?thesis
        using len by simp
    next
      case False
      with n 1(2) have e: "toString36 (n div 36) = toString36 (m div 36)"
        and d: "digit_char (n mod 36) = digit_char (m mod 36)"
        by (simp_all add: toString36.simps[of n] toString36.simps[of m])
      from 1(1)[OF n e] have "n div 36 = m div 36" .
      moreover from d have "n mod 36 = m mod 36"
        by (rule digit_char_inj) simp_all
      ultimately show ?thesis
        by (metis div_mult_mod_eq)
    qed
  qed
qed

lemma toHex_Cons:
  "toHex (b # bs) = digit_char (b div 16 mod 16) # digit_char (b mod 16) # toHex bs"
  by (simp add: toHex_def)

lemma toHex_length:
  "length (toHex bs) = 2 * length bs"
  by (induction bs) (simp_all add: toHex_Cons, simp add: toHex_def)

lemma toHex_digits:
  "set (toHex bs) \<subseteq> digit_char ` {..<36}"
proof (induction bs)
  case Nil
  show ?case
    by (simp add: toHex_def)
next
  case (Cons b bs)
  have "b div 16 mod 16 < 36" "b mod 16 < 36"
    by (simp_all add: less_trans[OF mod_less_divisor])
  with Cons show ?case
    by (auto simp: toHex_Cons)
qed

lemma toHex_inj:
  "toHex r = toHex r' \<Longrightarrow> \<forall>b \<in> set r. b < 256 \<Longrightarrow> \<forall>b \<in> set r'. b < 256 \<Longrightarrow> r = r'"
proof (induction r arbitrary: r')
  case Nil
  then show ?case
    using toHex_length[of r'] by (simp add: toHex_def)
next
  case (Cons b bs)
  from Cons.prems(1) toHex_length[of r'] toHex_length[of "b # bs"]
  obtain c cs where r': "r' = c # cs"
    by (cases r') auto
  from Cons.prems(1) have h: "digit_char (b div 16 mod 16) = digit_char (c div 16 mod 16)"
    and l: "digit_char (b mod 16) = digit_char (c mod 16)"
    and t: "toHex bs = toHex cs"
    by (simp_all add: r' toHex_Cons)
  have lt: "b div 16 mod 16 < 36" "c div 16 mod 16 < 36" "b mod 16 < 36" "c mod 16 < 36"
    by (simp_all add: less_trans[OF mod_less_divisor])
  from digit_char_inj[OF h lt(1,2)] digit_char_inj[OF l lt(3,4)]
  have "b div 16 mod 16 = c div 16 mod 16" "b mod 16 = c mod 16" .
  moreover have "b < 256" "c < 256"
    using Cons.prems(2,3) by (simp_all add: r')
  ultimately have "b = c"
    by (metis div_mult_mod_eq mod_less div_less_iff_less_mult zero_less_numeral
        numeral_times_numeral semiring_norm(12,13) )
  moreover have "bs = cs"
    using Cons.IH[OF t] Cons.prems(2,3) by (simp add: r')
  ultimately show ?case
    by (simp add: r')
qed

lemma generateQRCode_inj:
  assumes "generateQRCode m r = generateQRCode n r'"
    and "length r = length r'"
    and "\<forall>b \<in> set r. b < 256" "\<forall>b \<in> set r'. b < 256"
  shows "m = n \<and> r = r'"
proof -
  let ?u = "map upper_char"
  from assms(1)
  have "?u (toString36 m) @ (upper_char CHR ''_'' # ?u (toHex r))
      = ?u (toString36 n) @ (upper_char CHR ''_'' # ?u (toHex r'))"
    by (simp add: generateQRCode_def toUpperCase_def)
  moreover have "length (upper_char CHR ''_'' # ?u (toHex r))
      = length (upper_char CHR ''_'' # ?u (toHex r'))"
    using assms(2) by (simp add: toHex_length)
  ultimately have a: "?u (toString36 m) = ?u (toString36 n)"
    and b: "?u (toHex r) = ?u (toHex r')"
    by simp_all
  have "toString36 m = toString36 n"
    using a toString36_digits[of m] toString36_digits[of n]
    by (intro map_inj_on[OF a] inj_on_subset[OF upper_char_inj_on_digits]) simp
  then have "m = n"
    by (rule toString36_inj)
  moreover have "toHex r = toHex r'"
    using toHex_digits[of r] toHex_digits[of r']
    by (intro map_inj_on[OF b] inj_on_subset[OF upper_char_inj_on_digits]) simp
  then have "r = r'"
    using assms(3,4) by (rule toHex_inj)
  ultimately show ?thesis
    by simp
qed

text \<open>
  \<open>Number(balance.displayValue)\<close> is the balance up to a relative error of \<open>2 ^ -53\<close>.
\<close>

lemma Number_displayValue_error:
  "\<bar>Number_displayValue balance - displayValue balance\<bar> \<le> displayValue balance / 2 ^ 53"
proof (cases "cv_value balance = 0")
  case True
  then show ?thesis
    by (simp add: Number_displayValue_def displayValue_def nearest_double_zero dval_def)
next
  case False
  then have "0 < cv_value balance" "0 < (10::nat) ^ cv_decimals balance"
    by simp_all
  from nearest_double_error[OF this] show ?thesis
    by (simp add: Number_displayValue_def displayValue_def)
qed

lemma getTokenBalance_effect:
  "getTokenBalance ch s w = (r, s') \<Longrightarrow>
     perks s' = perks s \<and> perkClaims s' = perkClaims s \<and> ledger s' = ledger s
     \<and> chain_cmds s' = chain_cmds s \<and> users s' = users s
     \<and> (case r of Inl e \<Rightarrow> True
         | Inr b \<Rightarrow> \<exists>balance. balanceOf ch w = Some balance
                     \<and> b = Number_displayValue balance)"
  by (auto simp: getTokenBalance_def ensure_sdk_def log_info_def log_error_def
      split: if_splits option.splits)

lemma getPerkById_effect:
  "getPerkById s perkId = (r, s') \<Longrightarrow>
     perks s' = perks s \<and> perkClaims s' = perkClaims s \<and> ledger s' = ledger s
     \<and> chain_cmds s' = chain_cmds s \<and> users s' = users s
     \<and> (case r of Inl e \<Rightarrow> True
         | Inr p \<Rightarrow> find (\<lambda>p. p_id p = perkId \<and> p_active p) (perks s) = Some p)"
  by (auto simp: getPerkById_def log_error_def split: option.splits)

lemma claim_try_ledger:
  "ledger (snd (claim_try sch ch s newId now_ms random perkId userId)) = ledger s
   \<and> chain_cmds (snd (claim_try sch ch s newId now_ms random perkId userId)) = chain_cmds s"
  by (auto simp: claim_try_def perkClaim_create_def log_info_def Let_def
      split: option.splits sum.splits prod.splits if_splits
      dest!: getTokenBalance_effect getPerkById_effect)

lemma claim_try_Inr:
  assumes "claim_try sch ch s newId now_ms random perkId userId = (Inr claim, s')"
  shows "\<exists>p w balance. find (\<lambda>p. p_id p = perkId \<and> p_active p) (perks s) = Some p
     \<and> user_wallet s userId = Some w \<and> w \<noteq> [] \<and> balanceOf ch w = Some balance
     \<and> p_tokenCost p \<le> Number_displayValue balance
     \<and> claim = \<lparr>pc_id = newId, pc_perkId = perkId, pc_userId = userId,
                 pc_tokenCost = p_tokenCost p, pc_qrCode = generateQRCode now_ms random,
                 pc_redeemedAt = None\<rparr>
     \<and> perkClaims s' = perkClaims s @ [claim]
     \<and> \<not> (claim_qrCode_unique sch
           \<and> (\<exists>c \<in> set (perkClaims s). pc_qrCode c = generateQRCode now_ms random))"
proof -
  from assms obtain p s1 where g: "getPerkById s perkId = (Inr p, s1)"
    by (auto simp: claim_try_def split: sum.splits prod.splits)
  from getPerkById_effect[OF g]
  have s1: "perkClaims s1 = perkClaims s" "users s1 = users s"
    and p: "find (\<lambda>p. p_id p = perkId \<and> p_active p) (perks s) = Some p"
    by simp_all
  from assms g obtain w where w: "user_wallet s1 userId = Some w" "w \<noteq> []"
    by (auto simp: claim_try_def split: option.splits if_splits)
  from assms g w obtain bal s2 where b: "getTokenBalance ch s1 w = (Inr bal, s2)"
    by (auto simp: claim_try_def split: sum.splits prod.splits)
  from getTokenBalance_effect[OF b] obtain balance
    where s2: "perkClaims s2 = perkClaims s1"
      and bal: "balanceOf ch w = Some balance" "bal = Number_displayValue balance"
    by auto
  have w': "user_wallet s userId = Some w"
    using w(1) s1(2) by (simp add: user_wallet_def)
  from assms g w b show ?thesis
    using p w' bal s1(1) s2
    by (auto simp: claim_try_def perkClaim_create_def log_info_def Let_def
        split: if_splits)
qed

lemma claimPerk_claim_try:
  "fst (claimPerk sch ch s newId now_ms random perkId userId)
     = fst (claim_try sch ch s newId now_ms random perkId userId)
   \<and> ledger (snd (claimPerk sch ch s newId now_ms random perkId userId))
     = ledger (snd (claim_try sch ch s newId now_ms random perkId userId))
   \<and> chain_cmds (snd (claimPerk sch ch s newId now_ms random perkId userId))
     = chain_cmds (snd (claim_try sch ch s newId now_ms random perkId userId))
   \<and> perkClaims (snd (claimPerk sch ch s newId now_ms random perkId userId))
     = perkClaims (snd (claim_try sch ch s newId now_ms random perkId userId))"
  by (simp add: claimPerk_def log_error_def split: prod.splits sum.splits)

text \<open>
  C6. No call of \<open>claimPerk\<close> writes to the ledger or sends a command to the
  blockchain. When the call succeeds, the perk exists and is active, the user has a
  wallet address, and the balance as \<open>getTokenBalance\<close> returns it, the double nearest
  to the \<open>displayValue\<close> that the oracle reports for that address, is at least the
  perk's token cost; that double is the reported balance up to a relative error of
  \<open>2 ^ -53\<close>. The claim is appended to the claims, carries the perk's token cost and
  the generated claim code, and is not redeemed. The code is the code of no other pair
  of a clock value and as many random bytes.
\<close>

theorem claimPerk_preconditions:
  "ledger (snd (claimPerk sch ch s newId now_ms random perkId userId)) = ledger s
   \<and> chain_cmds (snd (claimPerk sch ch s newId now_ms random perkId userId)) = chain_cmds s
   \<and> (\<forall>claim. fst (claimPerk sch ch s newId now_ms random perkId userId) = Inr claim \<longrightarrow>
        (\<exists>p w balance. find (\<lambda>p. p_id p = perkId \<and> p_active p) (perks s) = Some p
           \<and> p_active p
           \<and> user_wallet s userId = Some w \<and> balanceOf ch w = Some balance
           \<and> p_tokenCost p \<le> Number_displayValue balance
           \<and> \<bar>Number_displayValue balance - displayValue balance\<bar>
               \<le> displayValue balance / 2 ^ 53
           \<and> pc_tokenCost claim = p_tokenCost p)
        \<and> pc_perkId claim = perkId \<and> pc_userId claim = userId
        \<and> pc_redeemedAt claim = None
        \<and> pc_qrCode claim = generateQRCode now_ms random
        \<and> perkClaims (snd (claimPerk sch ch s newId now_ms random perkId userId))
            = perkClaims s @ [claim]
        \<and> (\<forall>m r. generateQRCode m r = pc_qrCode claim \<and> length r = length random
               \<and> (\<forall>b \<in> set r. b < 256) \<and> (\<forall>b \<in> set random. b < 256)
             \<longrightarrow> m = now_ms \<and> r = random))"
proof (intro conjI allI impI)
  note C = claimPerk_claim_try[of sch ch s newId now_ms random perkId userId]
  note L = claim_try_ledger[of sch ch s newId now_ms random perkId userId]
  show "ledger (snd (claimPerk sch ch s newId now_ms random perkId userId)) = ledger s"
    using C L by simp
  show "chain_cmds (snd (claimPerk sch ch s newId now_ms random perkId userId)) = chain_cmds s"
    using C L by simp
  fix claim
  assume a: "fst (claimPerk sch ch s newId now_ms random perkId userId) = Inr claim"
  let ?s' = "snd (claim_try sch ch s newId now_ms random perkId userId)"
  have "claim_try sch ch s newId now_ms random perkId userId = (Inr claim, ?s')"
    using a C by (simp add: prod_eq_iff)
  from claim_try_Inr[OF this] obtain p w balance
    where p: "find (\<lambda>p. p_id p = perkId \<and> p_active p) (perks s) = Some p"
      and w: "user_wallet s userId = Some w" "balanceOf ch w = Some balance"
        "p_tokenCost p \<le> Number_displayValue balance"
      and c: "claim = \<lparr>pc_id = newId, pc_perkId = perkId, pc_userId = userId,
                 pc_tokenCost = p_tokenCost p, pc_qrCode = generateQRCode now_ms random,
                 pc_redeemedAt = None\<rparr>"
      and t: "perkClaims ?s' = perkClaims s @ [claim]"
    by blast
  have act: "p_active p"
    using p by (auto simp: find_Some_iff)
  show "\<exists>p w balance. find (\<lambda>p. p_id p = perkId \<and> p_active p) (perks s) = Some p
           \<and> p_active p
           \<and> user_wallet s userId = Some w \<and> balanceOf ch w = Some balance
           \<and> p_tokenCost p \<le> Number_displayValue balance
           \<and> \<bar>Number_displayValue balance - displayValue balance\<bar>
               \<le> displayValue balance / 2 ^ 53
           \<and> pc_tokenCost claim = p_tokenCost p"
    using p act w c Number_displayValue_error[of balance] by auto
  show q: "pc_perkId claim = perkId" "pc_userId claim = userId" "pc_redeemedAt claim = None"
    "pc_qrCode claim = generateQRCode now_ms random"
    using c by simp_all
  show "perkClaims (snd (claimPerk sch ch s newId now_ms random perkId userId))
            = perkClaims s @ [claim]"
    using t C by simp
  fix m r
  assume g: "generateQRCode m r = pc_qrCode claim \<and> length r = length random
               \<and> (\<forall>b \<in> set r. b < 256) \<and> (\<forall>b \<in> set random. b < 256)"
  then have "generateQRCode m r = generateQRCode now_ms random"
    by (simp add: q(4))
  from generateQRCode_inj[OF this] g show "m = now_ms" "r = random"
    by simp_all
qed

text \<open>
  User \<open>u1\<close>, with 25 tokens, claims perk \<open>p1\<close> (10 tokens) at clock 1700000000000 with
  random bytes ab cd ef 04 05 06 07 ff. The same bytes one millisecond later give
  another code.
\<close>

theorem claimPerk_preconditions_witness:
  "fst (claimPerk spec_schema (chain_balance 25) perk_store ''c2'' 1700000000000
          [171, 205, 239, 4, 5, 6, 7, 255] ''p1'' ''u1'')
     = Inr \<lparr>pc_id = ''c2'', pc_perkId = ''p1'', pc_userId = ''u1'', pc_tokenCost = 10,
            pc_qrCode = ''PERK_LOYW3V28_ABCDEF04050607FF'', pc_redeemedAt = None\<rparr>
   \<and> Number_displayValue \<lparr>cv_value = 25000000000000000000, cv_decimals = 18\<rparr> = 25
   \<and> map pc_qrCode (perkClaims (snd (claimPerk spec_schema (chain_balance 25) perk_store ''c2''
          1700000000000 [171, 205, 239, 4, 5, 6, 7, 255] ''p1'' ''u1'')))
     = [''PERK_A_00'', ''PERK_LOYW3V28_ABCDEF04050607FF'']
   \<and> generateQRCode 1700000000001 [171, 205, 239, 4, 5, 6, 7, 255]
     \<noteq> ''PERK_LOYW3V28_ABCDEF04050607FF''
   \<and> ledger (snd (claimPerk spec_schema (chain_balance 25) perk_store ''c2'' 1700000000000
          [171, 205, 239, 4, 5, 6, 7, 255] ''p1'' ''u1'')) = ledger perk_store"
proof -
  let ?R = "claimPerk spec_schema (chain_balance 25) perk_store ''c2'' 1700000000000
          [171, 205, 239, 4, 5, 6, 7, 255] ''p1'' ''u1''"
  let ?claim = "\<lparr>pc_id = ''c2'', pc_perkId = ''p1'', pc_userId = ''u1'', pc_tokenCost = 10,
            pc_qrCode = ''PERK_LOYW3V28_ABCDEF04050607FF'', pc_redeemedAt = None\<rparr>"
  have qr: "generateQRCode 1700000000000 [171, 205, 239, 4, 5, 6, 7, 255]
      = ''PERK_LOYW3V28_ABCDEF04050607FF''"
    by (simp add: generateQRCode_def toString36.simps toHex_def toUpperCase_def upper_char_def
        digit_char_def char_of_def bit_Suc_0_iff)
  have n: "Number_displayValue \<lparr>cv_value = 25000000000000000000, cv_decimals = 18\<rparr> = 25"
    by (simp add: Number_displayValue_def dval_def nearest_double_def binade_def
        at_least_pow2_def round_div_even_def log2_nat.simps Let_def)
  have r: "fst ?R = Inr ?claim"
    by (simp add: claimPerk_def claim_try_def getPerkById_def user_wallet_def
        getTokenBalance_def ensure_sdk_def perkClaim_create_def log_info_def qr n
        perk_store_def empty_store_def alice_def chain_balance_def spec_schema_def Let_def)
  have h: "map pc_qrCode (perkClaims perk_store) = [''PERK_A_00'']"
    by (simp add: perk_store_def empty_store_def)
  note T = claimPerk_preconditions[of spec_schema "chain_balance 25" perk_store "''c2''"
      1700000000000 "[171, 205, 239, 4, 5, 6, 7, 255]" "''p1''" "''u1''"]
  note S = T[THEN conjunct2, THEN conjunct2, rule_format, OF r]
  note cl = S[THEN conjunct2, THEN conjunct2, THEN conjunct2, THEN conjunct2, THEN conjunct2,
      THEN conjunct1]
  note U = S[THEN conjunct2, THEN conjunct2, THEN conjunct2, THEN conjunct2, THEN conjunct2,
      THEN conjunct2, rule_format, of 1700000000001 "[171, 205, 239, 4, 5, 6, 7, 255]"]
  have d: "generateQRCode 1700000000001 [171, 205, 239, 4, 5, 6, 7, 255]
      \<noteq> ''PERK_LOYW3V28_ABCDEF04050607FF''"
  proof
    assume "generateQRCode 1700000000001 [171, 205, 239, 4, 5, 6, 7, 255]
      = ''PERK_LOYW3V28_ABCDEF04050607FF''"
    with U have "(1700000000001::nat) = 1700000000000"
      by simp
    then show False
      by simp
  qed
  from T[THEN conjunct1] cl r h n d show ?thesis
    by simp
qed

text \<open>
  The balance that is compared is a double. The oracle reports 9.999999999999999999
  tokens, which is less than the 10 tokens perk \<open>p1\<close> costs; \<open>Number\<close> rounds it to 10,
  and the claim is made.
\<close>

theorem claimPerk_balance_counterexample:
  "balanceOf chain_just_below_ten ''0xA11CE''
     = Some \<lparr>cv_value = 9999999999999999999, cv_decimals = 18\<rparr>
   \<and> displayValue \<lparr>cv_value = 9999999999999999999, cv_decimals = 18\<rparr> < 10
   \<and> map p_tokenCost (perks perk_store) = [10]
   \<and> fst (claimPerk spec_schema chain_just_below_ten perk_store ''c2'' 1700000000000
          [171, 205, 239, 4, 5, 6, 7, 255] ''p1'' ''u1'')
     = Inr \<lparr>pc_id = ''c2'', pc_perkId = ''p1'', pc_userId = ''u1'', pc_tokenCost = 10,
            pc_qrCode = ''PERK_LOYW3V28_ABCDEF04050607FF'', pc_redeemedAt = None\<rparr>"
proof -
  have qr: "generateQRCode 1700000000000 [171, 205, 239, 4, 5, 6, 7, 255]
      = ''PERK_LOYW3V28_ABCDEF04050607FF''"
    by (simp add: generateQRCode_def toString36.simps toHex_def toUpperCase_def upper_char_def
        digit_char_def char_of_def bit_Suc_0_iff)
  have n: "Number_displayValue \<lparr>cv_value = 9999999999999999999, cv_decimals = 18\<rparr> = 10"
    by (simp add: Number_displayValue_def dval_def nearest_double_def binade_def
        at_least_pow2_def round_div_even_def log2_nat.simps Let_def)
  have "fst (claimPerk spec_schema chain_just_below_ten perk_store ''c2'' 1700000000000
          [171, 205, 239, 4, 5, 6, 7, 255] ''p1'' ''u1'')
     = Inr \<lparr>pc_id = ''c2'', pc_perkId = ''p1'', pc_userId = ''u1'', pc_tokenCost = 10,
            pc_qrCode = ''PERK_LOYW3V28_ABCDEF04050607FF'', pc_redeemedAt = None\<rparr>"
    by (simp add: claimPerk_def claim_try_def getPerkById_def user_wallet_def
        getTokenBalance_def ensure_sdk_def perkClaim_create_def log_info_def qr n
        perk_store_def empty_store_def alice_def chain_just_below_ten_def spec_schema_def
        Let_def)
  then show ?thesis
    by (simp add: chain_just_below_ten_def displayValue_def perk_store_def empty_store_def)
qed

text \<open>
  \<open>claimPerk\<close> looks up no earlier code. Where the store enforces the unique
  constraint on \<open>qrCode\<close>, a claim that succeeds has the code of no earlier claim; without
  the constraint, a claim made with the clock value and the random bytes of an earlier
  claim is stored with the same code.
\<close>

lemma claimPerk_unique_constraint:
  assumes "claim_qrCode_unique sch"
    and "fst (claimPerk sch ch s newId now_ms random perkId userId) = Inr claim"
  shows "pc_qrCode claim \<notin> pc_qrCode ` set (perkClaims s)"
proof -
  have "claim_try sch ch s newId now_ms random perkId userId
      = (Inr claim, snd (claim_try sch ch s newId now_ms random perkId userId))"
    using assms(2) claimPerk_claim_try[of sch ch s newId now_ms random perkId userId]
    by (simp add: prod_eq_iff)
  from claim_try_Inr[OF this] assms(1) show ?thesis
    by auto
qed

lemma claimPerk_same_code_without_constraint:
  "fst (claimPerk bare_schema (chain_balance 25)
      (perk_store\<lparr>perkClaims := [claim_c1\<lparr>pc_qrCode := generateQRCode 7 [1]\<rparr>]\<rparr>)
      ''c3'' 7 [1] ''p1'' ''u1'')
     = Inr \<lparr>pc_id = ''c3'', pc_perkId = ''p1'', pc_userId = ''u1'', pc_tokenCost = 10,
            pc_qrCode = generateQRCode 7 [1], pc_redeemedAt = None\<rparr>"
proof -
  have n: "Number_displayValue \<lparr>cv_value = 25000000000000000000, cv_decimals = 18\<rparr> = 25"
    by (simp add: Number_displayValue_def dval_def nearest_double_def binade_def
        at_least_pow2_def round_div_even_def log2_nat.simps Let_def)
  show ?thesis
    by (simp add: claimPerk_def claim_try_def getPerkById_def user_wallet_def
        getTokenBalance_def ensure_sdk_def perkClaim_create_def log_info_def n
        perk_store_def empty_store_def alice_def chain_balance_def bare_schema_def Let_def)
qed
section \<open>Casting a ballot\<close>

lemma voteBallot_create_fresh:
  assumes "find (\<lambda>b. vb_voteId b = voteId \<and> vb_userId b = userId) (voteBallots s) = None"
    and "vb_voteId row = voteId" and "vb_userId row = userId"
  shows "voteBallot_create row s = Inr (s\<lparr>voteBallots := voteBallots s @ [row]\<rparr>)"
  using assms by (auto simp: voteBallot_create_def find_None_iff)

lemma ballot_try_cases:
  "ballot_try s now newId voteId userId optionId =
     (case find (\<lambda>v. v_id v = voteId) (votes s) of
        None \<Rightarrow> (Inl VoteNotFound, log_error ''Error getting vote by ID:'' VoteNotFound s)
      | Some v \<Rightarrow>
        if now < v_startAt v \<or> now > v_endAt v then (Inl VoteNotActive, s)
        else if \<not> v_active v then (Inl VoteInactive, s)
        else if find (\<lambda>b. vb_voteId b = voteId \<and> vb_userId b = userId) (voteBallots s) \<noteq> None
          then (Inl AlreadyVoted, s)
        else if find (\<lambda>x. vo_id x = optionId \<and> vo_voteId x = voteId) (voteOptions s) = None
          then (Inl InvalidOption, s)
        else (Inr \<lparr>vb_id = newId, vb_voteId = voteId, vb_optionId = optionId,
                    vb_userId = userId\<rparr>,
              log_info ''Ballot cast''
                [(''ballotId'', Str newId), (''voteId'', Str voteId),
                 (''userId'', Str userId), (''optionId'', Str optionId)]
                (s\<lparr>voteBallots := voteBallots s @
                    [\<lparr>vb_id = newId, vb_voteId = voteId, vb_optionId = optionId,
                      vb_userId = userId\<rparr>]\<rparr>)))"
  by (simp add: ballot_try_def getVoteById_def voteBallot_create_fresh Let_def
      split: option.splits)

lemma castBallot_cases:
  "castBallot s now newId voteId userId optionId =
     (case ballot_try s now newId voteId userId optionId of
        (Inr ballot, s') \<Rightarrow> (Inr ballot, s')
      | (Inl e, s') \<Rightarrow> (Inl e, log_error ''Error casting ballot:'' e s'))"
  by (simp add: castBallot_def)

text \<open>
  C4. \<open>castBallot\<close> returns a ballot exactly when the vote exists, the time of the call
  lies in its window, its \<open>active\<close> flag is set, the option is an option of that vote,
  and the voter has no ballot in that vote. Then the ballot is the one asked for and is
  appended to the ballots; in every other case the call throws and the ballots are as
  before. A voter who has a ballot in the vote never gets a second one: the call throws,
  and when the vote is still open and active the error is \<open>AlreadyVoted\<close> (status 400).
\<close>

theorem castBallot_one_per_voter:
  "((\<exists>b. fst (castBallot s now newId voteId userId optionId) = Inr b) \<longleftrightarrow>
      (\<exists>v. find (\<lambda>v. v_id v = voteId) (votes s) = Some v
           \<and> v_startAt v \<le> now \<and> now \<le> v_endAt v \<and> v_active v)
      \<and> (\<exists>x \<in> set (voteOptions s). vo_id x = optionId \<and> vo_voteId x = voteId)
      \<and> \<not> (\<exists>b \<in> set (voteBallots s). vb_voteId b = voteId \<and> vb_userId b = userId))
   \<and> (\<forall>b. fst (castBallot s now newId voteId userId optionId) = Inr b \<longrightarrow>
        b = \<lparr>vb_id = newId, vb_voteId = voteId, vb_optionId = optionId, vb_userId = userId\<rparr>
        \<and> voteBallots (snd (castBallot s now newId voteId userId optionId))
            = voteBallots s @ [b])
   \<and> (\<forall>e. fst (castBallot s now newId voteId userId optionId) = Inl e \<longrightarrow>
        voteBallots (snd (castBallot s now newId voteId userId optionId)) = voteBallots s)
   \<and> ((\<exists>b \<in> set (voteBallots s). vb_voteId b = voteId \<and> vb_userId b = userId) \<longrightarrow>
        (\<exists>e. fst (castBallot s now newId voteId userId optionId) = Inl e)
        \<and> ((\<exists>v. find (\<lambda>v. v_id v = voteId) (votes s) = Some v
               \<and> v_startAt v \<le> now \<and> now \<le> v_endAt v \<and> v_active v) \<longrightarrow>
             fst (castBallot s now newId voteId userId optionId) = Inl AlreadyVoted
             \<and> statusCode AlreadyVoted = Some 400))"
proof -
  define voted where "voted \<longleftrightarrow>
    (\<exists>b \<in> set (voteBallots s). vb_voteId b = voteId \<and> vb_userId b = userId)"
  define valid where "valid \<longleftrightarrow>
    (\<exists>x \<in> set (voteOptions s). vo_id x = optionId \<and> vo_voteId x = voteId)"
  have fb: "find (\<lambda>b. vb_voteId b = voteId \<and> vb_userId b = userId) (voteBallots s) = None
      \<longleftrightarrow> \<not> voted"
    by (auto simp: voted_def find_None_iff)
  have fo: "find (\<lambda>x. vo_id x = optionId \<and> vo_voteId x = voteId) (voteOptions s) = None
      \<longleftrightarrow> \<not> valid"
    by (auto simp: valid_def find_None_iff)
  show ?thesis
  proof (cases "find (\<lambda>v. v_id v = voteId) (votes s)")
    case None
    then show ?thesis
      by (simp add: castBallot_cases ballot_try_cases log_error_def)
  next
    case (Some v)
    have c: "castBallot s now newId voteId userId optionId =
       (if now < v_startAt v \<or> now > v_endAt v
          then (Inl VoteNotActive, log_error ''Error casting ballot:'' VoteNotActive s)
        else if \<not> v_active v
          then (Inl VoteInactive, log_error ''Error casting ballot:'' VoteInactive s)
        else if voted
          then (Inl AlreadyVoted, log_error ''Error casting ballot:'' AlreadyVoted s)
        else if \<not> valid
          then (Inl InvalidOption, log_error ''Error casting ballot:'' InvalidOption s)
        else (Inr \<lparr>vb_id = newId, vb_voteId = voteId, vb_optionId = optionId,
                      vb_userId = userId\<rparr>,
                log_info ''Ballot cast''
                  [(''ballotId'', Str newId), (''voteId'', Str voteId),
                   (''userId'', Str userId), (''optionId'', Str optionId)]
                  (s\<lparr>voteBallots := voteBallots s @
                      [\<lparr>vb_id = newId, vb_voteId = voteId, vb_optionId = optionId,
                        vb_userId = userId\<rparr>]\<rparr>)))"
      by (simp add: castBallot_cases ballot_try_cases Some fb fo)
    show ?thesis
      unfolding voted_def[symmetric] valid_def[symmetric] Some c
      by (auto simp: log_info_def log_error_def)
  qed
qed

text \<open>
  In vote \<open>v1\<close>, open from 100 to 200: user \<open>u5\<close> votes for \<open>oa\<close> at time 150; user
  \<open>u1\<close>, who has voted, tries again, for the other option.
\<close>

theorem castBallot_one_per_voter_witness:
  "fst (castBallot vote_store 150 ''b5'' ''v1'' ''u5'' ''oa'')
     = Inr \<lparr>vb_id = ''b5'', vb_voteId = ''v1'', vb_optionId = ''oa'', vb_userId = ''u5''\<rparr>
   \<and> voteBallots (snd (castBallot vote_store 150 ''b5'' ''v1'' ''u5'' ''oa''))
     = voteBallots vote_store
       @ [\<lparr>vb_id = ''b5'', vb_voteId = ''v1'', vb_optionId = ''oa'', vb_userId = ''u5''\<rparr>]
   \<and> (\<exists>b \<in> set (voteBallots vote_store). vb_voteId b = ''v1'' \<and> vb_userId b = ''u1'')
   \<and> fst (castBallot vote_store 150 ''b6'' ''v1'' ''u1'' ''ob'') = Inl AlreadyVoted
   \<and> voteBallots (snd (castBallot vote_store 150 ''b6'' ''v1'' ''u1'' ''ob''))
     = voteBallots vote_store"
proof -
  have v: "\<exists>v. find (\<lambda>v. v_id v = ''v1'') (votes vote_store) = Some v
      \<and> v_startAt v \<le> 150 \<and> 150 \<le> v_endAt v \<and> v_active v"
    by (simp add: vote_store_def empty_store_def)
  have o: "\<exists>x \<in> set (voteOptions vote_store). vo_id x = ''oa'' \<and> vo_voteId x = ''v1''"
    by (simp add: vote_store_def empty_store_def)
  have n: "\<not> (\<exists>b \<in> set (voteBallots vote_store). vb_voteId b = ''v1'' \<and> vb_userId b = ''u5'')"
    by (simp add: vote_store_def empty_store_def)
  have d: "\<exists>b \<in> set (voteBallots vote_store). vb_voteId b = ''v1'' \<and> vb_userId b = ''u1''"
    by (simp add: vote_store_def empty_store_def)
  note T = castBallot_one_per_voter[of vote_store 150 "''b5''" "''v1''" "''u5''" "''oa''"]
  note D = castBallot_one_per_voter[of vote_store 150 "''b6''" "''v1''" "''u1''" "''ob''"]
  from T[THEN conjunct1] v o n
  obtain b where b: "fst (castBallot vote_store 150 ''b5'' ''v1'' ''u5'' ''oa'') = Inr b"
    by blast
  from T[THEN conjunct2, THEN conjunct1, rule_format, OF b] b
  have 1: "fst (castBallot vote_store 150 ''b5'' ''v1'' ''u5'' ''oa'')
        = Inr \<lparr>vb_id = ''b5'', vb_voteId = ''v1'', vb_optionId = ''oa'', vb_userId = ''u5''\<rparr>"
    and 2: "voteBallots (snd (castBallot vote_store 150 ''b5'' ''v1'' ''u5'' ''oa''))
        = voteBallots vote_store
          @ [\<lparr>vb_id = ''b5'', vb_voteId = ''v1'', vb_optionId = ''oa'', vb_userId = ''u5''\<rparr>]"
    by simp_all
  from D[THEN conjunct2, THEN conjunct2, THEN conjunct2, rule_format, OF d]
  have 3: "fst (castBallot vote_store 150 ''b6'' ''v1'' ''u1'' ''ob'') = Inl AlreadyVoted"
    using v by blast
  from D[THEN conjunct2, THEN conjunct2, THEN conjunct1, rule_format, OF 3]
  have 4: "voteBallots (snd (castBallot vote_store 150 ''b6'' ''v1'' ''u1'' ''ob''))
        = voteBallots vote_store" .
  from 1 2 d 3 4 show ?thesis
    by blast
qed

section \<open>Vote results\<close>

lemma foldl_plus_sum_list:
  "foldl (\<lambda>sum x. sum + f x) (n::nat) xs = n + sum_list (map f xs)"
  by (induction xs arbitrary: n) simp_all

lemma sorted_rev_of_negated:
  "sorted (map (\<lambda>x. - int (f x)) xs) \<Longrightarrow> sorted (rev (map f xs))"
  by (induction xs) (auto simp: sorted_append)

lemma sum_list_map_sort_key:
  "sum_list (map f (sort_key k xs)) = (sum_list (map f xs) :: nat)"
proof -
  have "mset (map f (sort_key k xs)) = mset (map f xs)"
    by simp
  then have "sum_mset (mset (map f (sort_key k xs))) = sum_mset (mset (map f xs))"
    by (rule arg_cong)
  then show ?thesis
    by (simp only: sum_mset_sum_list)
qed

lemma totalVotes_sum:
  "foldl (\<lambda>sum x. sum + count_ballots s x) 0 (options_by_ballots s voteId)
     = sum_list (map (count_ballots s) (filter (\<lambda>x. vo_voteId x = voteId) (voteOptions s)))"
  by (simp add: foldl_plus_sum_list options_by_ballots_def sum_list_map_sort_key)

text \<open>
  C5. For a vote that exists, \<open>getVoteResults\<close> returns, and changes nothing.
  \<open>totalVotes\<close> is the sum, over the options of the vote, of the ballots cast for each
  option. There is one result per option of the vote, with the option's id and label,
  \<open>votes\<close> the number of ballots cast for the option, and \<open>percentage\<close> 0 when
  \<open>totalVotes\<close> is 0 (so with no ballots every percentage is 0), and otherwise the
  double that the code computes: \<open>votes / totalVotes\<close> rounded to a double, times 100,
  rounded again. That double is \<open>votes / totalVotes * 100\<close> up to a relative error of
  \<open>2 ^ -51\<close>. The results come with the most ballots first.
\<close>

theorem getVoteResults_tally:
  assumes "find (\<lambda>v. v_id v = voteId) (votes s) = Some v"
    and "totalVotes = sum_list (map (count_ballots s)
                   (filter (\<lambda>x. vo_voteId x = voteId) (voteOptions s)))"
  shows "\<exists>r. getVoteResults s voteId = (Inr r, s)
     \<and> vs_id (vr_vote r) = voteId
     \<and> vs_totalVotes (vr_vote r) = totalVotes
     \<and> mset (vr_results r)
        = image_mset
            (\<lambda>x. \<lparr>r_id = vo_id x, r_label = vo_label x,
                   r_votes = length (filter (\<lambda>b. vb_optionId b = vo_id x) (voteBallots s)),
                   r_percentage =
                     (if totalVotes = 0 then 0
                      else dval (js_times
                             (nearest_double
                                (length (filter (\<lambda>b. vb_optionId b = vo_id x) (voteBallots s)))
                                totalVotes) 100))\<rparr>)
            (mset (filter (\<lambda>x. vo_voteId x = voteId) (voteOptions s)))
     \<and> (\<forall>x \<in> set (vr_results r).
           \<bar>r_percentage x - of_nat (r_votes x) / of_nat totalVotes * 100\<bar>
             \<le> of_nat (r_votes x) / of_nat totalVotes * 100 / 2 ^ 51)
     \<and> (totalVotes = 0 \<longrightarrow> (\<forall>x \<in> set (vr_results r). r_percentage x = 0))
     \<and> sorted (rev (map r_votes (vr_results r)))"
proof -
  let ?opts = "options_by_ballots s voteId"
  let ?row = "\<lambda>x. \<lparr>r_id = vo_id x, r_label = vo_label x, r_votes = count_ballots s x,
                     r_percentage = percentage (count_ballots s x) totalVotes\<rparr>"
  let ?r = "\<lparr>vr_vote = \<lparr>vs_id = v_id v, vs_title = v_title v,
                          vs_description = v_description v, vs_startAt = v_startAt v,
                          vs_endAt = v_endAt v, vs_totalVotes = totalVotes\<rparr>,
             vr_results = map ?row ?opts\<rparr>"
  have id: "v_id v = voteId"
    using assms(1) by (auto simp: find_Some_iff)
  have r: "getVoteResults s voteId = (Inr ?r, s)"
    using assms(1) totalVotes_sum[of s voteId] assms(2)
    by (simp add: getVoteResults_def getVoteById_def Let_def)
  have m: "mset (map ?row ?opts)
      = image_mset ?row (mset (filter (\<lambda>x. vo_voteId x = voteId) (voteOptions s)))"
    by (simp add: options_by_ballots_def)
  have row: "?row = (\<lambda>x. \<lparr>r_id = vo_id x, r_label = vo_label x,
                   r_votes = length (filter (\<lambda>b. vb_optionId b = vo_id x) (voteBallots s)),
                   r_percentage =
                     (if totalVotes = 0 then 0
                      else dval (js_times
                             (nearest_double
                                (length (filter (\<lambda>b. vb_optionId b = vo_id x) (voteBallots s)))
                                totalVotes) 100))\<rparr>)"
    by (auto simp: count_ballots_def percentage_def)
  have z: "totalVotes = 0 \<longrightarrow> (\<forall>x \<in> set (map ?row ?opts). r_percentage x = 0)"
    by (simp add: percentage_def)
  have e: "\<forall>x \<in> set (map ?row ?opts).
      \<bar>r_percentage x - of_nat (r_votes x) / of_nat totalVotes * 100\<bar>
        \<le> of_nat (r_votes x) / of_nat totalVotes * 100 / 2 ^ 51"
    using percentage_error[of _ totalVotes] by simp
  have "sorted (map (\<lambda>x. - int (count_ballots s x)) ?opts)"
    by (simp add: options_by_ballots_def)
  then have "sorted (rev (map (count_ballots s) ?opts))"
    by (rule sorted_rev_of_negated)
  then have o: "sorted (rev (map r_votes (map ?row ?opts)))"
    by (simp add: comp_def)
  show ?thesis
    using r id m z e o unfolding row[symmetric]
    by (intro exI[of _ ?r]) simp
qed

text \<open>
  Vote \<open>v1\<close> with three ballots for A and one for B: A has 75 percent, B has 25, of 4
  votes (both doubles are exact). The same vote without ballots: both percentages are 0.
\<close>

theorem getVoteResults_tally_witness:
  "find (\<lambda>v. v_id v = ''v1'') (votes vote_store)
     = Some \<lparr>v_id = ''v1'', v_title = ''Logo'', v_description = None, v_startAt = 100,
              v_endAt = 200, v_active = True\<rparr>
   \<and> getVoteResults vote_store ''v1''
     = (Inr \<lparr>vr_vote = \<lparr>vs_id = ''v1'', vs_title = ''Logo'', vs_description = None,
                          vs_startAt = 100, vs_endAt = 200, vs_totalVotes = 4\<rparr>,
             vr_results = [\<lparr>r_id = ''oa'', r_label = ''A'', r_votes = 3, r_percentage = 75\<rparr>,
                           \<lparr>r_id = ''ob'', r_label = ''B'', r_votes = 1, r_percentage = 25\<rparr>]\<rparr>,
        vote_store)
   \<and> map r_percentage (vr_results (projr (fst
         (getVoteResults (vote_store\<lparr>voteBallots := []\<rparr>) ''v1'')))) = [0, 0]
   \<and> vs_totalVotes (vr_vote (projr (fst
         (getVoteResults (vote_store\<lparr>voteBallots := []\<rparr>) ''v1'')))) = 0"
proof -
  let ?v = "\<lparr>v_id = ''v1'', v_title = ''Logo'', v_description = None, v_startAt = 100,
              v_endAt = 200, v_active = True\<rparr>"
  let ?empty = "vote_store\<lparr>voteBallots := []\<rparr>"
  have h: "find (\<lambda>v. v_id v = ''v1'') (votes vote_store) = Some ?v"
    and h0: "find (\<lambda>v. v_id v = ''v1'') (votes ?empty) = Some ?v"
    by (simp_all add: vote_store_def empty_store_def)
  have t: "sum_list (map (count_ballots vote_store)
             (filter (\<lambda>x. vo_voteId x = ''v1'') (voteOptions vote_store))) = 4"
    and t0: "sum_list (map (count_ballots ?empty)
             (filter (\<lambda>x. vo_voteId x = ''v1'') (voteOptions ?empty))) = 0"
    by (simp_all add: count_ballots_def vote_store_def empty_store_def)
  have o: "options_by_ballots vote_store ''v1''
      = [\<lparr>vo_id = ''oa'', vo_voteId = ''v1'', vo_label = ''A''\<rparr>,
         \<lparr>vo_id = ''ob'', vo_voteId = ''v1'', vo_label = ''B''\<rparr>]"
    by (simp add: options_by_ballots_def count_ballots_def vote_store_def empty_store_def)
  have c: "count_ballots vote_store \<lparr>vo_id = ''oa'', vo_voteId = ''v1'', vo_label = ''A''\<rparr> = 3"
    "count_ballots vote_store \<lparr>vo_id = ''ob'', vo_voteId = ''v1'', vo_label = ''B''\<rparr> = 1"
    by (simp_all add: count_ballots_def vote_store_def empty_store_def)
  have p3: "percentage 3 4 = 75" and p1: "percentage (Suc 0) 4 = 25"
    by (simp_all add: percentage_def dval_def js_times_def nearest_double_def binade_def
        at_least_pow2_def round_div_even_def log2_nat.simps Let_def)
  have e: "getVoteResults vote_store ''v1''
     = (Inr \<lparr>vr_vote = \<lparr>vs_id = ''v1'', vs_title = ''Logo'', vs_description = None,
                          vs_startAt = 100, vs_endAt = 200, vs_totalVotes = 4\<rparr>,
             vr_results = [\<lparr>r_id = ''oa'', r_label = ''A'', r_votes = 3, r_percentage = 75\<rparr>,
                           \<lparr>r_id = ''ob'', r_label = ''B'', r_votes = 1, r_percentage = 25\<rparr>]\<rparr>,
        vote_store)"
    using h by (simp add: getVoteResults_def getVoteById_def o c p3 p1 Let_def)
  from getVoteResults_tally[OF h0 t0[symmetric]] obtain r0
    where all: "getVoteResults ?empty ''v1'' = (Inr r0, ?empty)
     \<and> vs_id (vr_vote r0) = ''v1''
     \<and> vs_totalVotes (vr_vote r0) = 0
     \<and> mset (vr_results r0)
        = image_mset
            (\<lambda>x. \<lparr>r_id = vo_id x, r_label = vo_label x,
                   r_votes = length (filter (\<lambda>b. vb_optionId b = vo_id x) (voteBallots ?empty)),
                   r_percentage =
                     (if (0::nat) = 0 then 0
                      else dval (js_times
                             (nearest_double
                                (length (filter (\<lambda>b. vb_optionId b = vo_id x)
                                   (voteBallots ?empty)))
                                0) 100))\<rparr>)
            (mset (filter (\<lambda>x. vo_voteId x = ''v1'') (voteOptions ?empty)))
     \<and> (\<forall>x \<in> set (vr_results r0).
           \<bar>r_percentage x - of_nat (r_votes x) / of_nat (0::nat) * 100\<bar>
             \<le> of_nat (r_votes x) / of_nat (0::nat) * 100 / 2 ^ 51)
     \<and> ((0::nat) = 0 \<longrightarrow> (\<forall>x \<in> set (vr_results r0). r_percentage x = 0))
     \<and> sorted (rev (map r_votes (vr_results r0)))" ..
  note r0 = all[THEN conjunct1]
  note tv = all[THEN conjunct2, THEN conjunct2, THEN conjunct1]
  note z = all[THEN conjunct2, THEN conjunct2, THEN conjunct2, THEN conjunct2, THEN conjunct2,
      THEN conjunct1, rule_format, OF refl]
  note m0 = all[THEN conjunct2, THEN conjunct2, THEN conjunct2, THEN conjunct1]
  have "length (vr_results r0)
      = length (filter (\<lambda>x. vo_voteId x = ''v1'') (voteOptions ?empty))"
    using arg_cong[OF m0, of size] by (simp del: mset_filter)
  then have l: "length (vr_results r0) = 2"
    by (simp add: vote_store_def empty_store_def)
  have "map r_percentage (vr_results r0) = map (\<lambda>x. 0) (vr_results r0)"
    using z by (intro map_cong) simp_all
  with l have p: "map r_percentage (vr_results r0) = [0, 0]"
    by (simp add: map_replicate_const numeral_2_eq_2)
  from h e p tv r0 show ?thesis
    by simp
qed


text \<open>
  The percentage is not always \<open>votes / totalVotes * 100\<close>. With eleven of twenty
  ballots for A, the quotient 11 / 20 is rounded up to a double, and its product with
  100 is the double above 55: the result for A is 55.00000000000001, not 55.
\<close>

theorem getVoteResults_percentage_counterexample:
  "map r_votes (vr_results (projr (fst (getVoteResults close_vote_store ''v1'')))) = [11, 9]
   \<and> vs_totalVotes (vr_vote (projr (fst (getVoteResults close_vote_store ''v1'')))) = 20
   \<and> map r_percentage (vr_results (projr (fst (getVoteResults close_vote_store ''v1''))))
     = [55 + 1 / 2 ^ 47, 45]
   \<and> (55 + 1 / 2 ^ 47 :: rat) \<noteq> 11 / 20 * 100"
proof -
  have b: "voteBallots close_vote_store
      = map (\<lambda>i. \<lparr>vb_id = ''b'' @ replicate i CHR ''i'', vb_voteId = ''v1'',
                vb_optionId = (if i < 11 then ''oa'' else ''ob''),
                vb_userId = ''u'' @ replicate i CHR ''i''\<rparr>) [0..<20]"
    and v: "find (\<lambda>v. v_id v = ''v1'') (votes close_vote_store)
      = Some \<lparr>v_id = ''v1'', v_title = ''Logo'', v_description = None, v_startAt = 100,
              v_endAt = 200, v_active = True\<rparr>"
    and os: "voteOptions close_vote_store
      = [\<lparr>vo_id = ''ob'', vo_voteId = ''v1'', vo_label = ''B''\<rparr>,
         \<lparr>vo_id = ''oa'', vo_voteId = ''v1'', vo_label = ''A''\<rparr>]"
    by (simp_all add: close_vote_store_def vote_store_def empty_store_def)
  have c: "count_ballots close_vote_store \<lparr>vo_id = ''oa'', vo_voteId = ''v1'', vo_label = ''A''\<rparr>
      = 11"
    "count_ballots close_vote_store \<lparr>vo_id = ''ob'', vo_voteId = ''v1'', vo_label = ''B''\<rparr> = 9"
    by (simp_all add: count_ballots_def b upt_rec)
  have o: "options_by_ballots close_vote_store ''v1''
      = [\<lparr>vo_id = ''oa'', vo_voteId = ''v1'', vo_label = ''A''\<rparr>,
         \<lparr>vo_id = ''ob'', vo_voteId = ''v1'', vo_label = ''B''\<rparr>]"
    by (simp add: options_by_ballots_def os c)
  have p: "percentage 11 20 = 55 + 1 / 2 ^ 47" "percentage 9 20 = 45"
    by (simp_all add: percentage_def dval_def js_times_def nearest_double_def binade_def
        at_least_pow2_def round_div_even_def log2_nat.simps Let_def)
  have "getVoteResults close_vote_store ''v1''
     = (Inr \<lparr>vr_vote = \<lparr>vs_id = ''v1'', vs_title = ''Logo'', vs_description = None,
                          vs_startAt = 100, vs_endAt = 200, vs_totalVotes = 20\<rparr>,
             vr_results = [\<lparr>r_id = ''oa'', r_label = ''A'', r_votes = 11,
                             r_percentage = 55 + 1 / 2 ^ 47\<rparr>,
                           \<lparr>r_id = ''ob'', r_label = ''B'', r_votes = 9, r_percentage = 45\<rparr>]\<rparr>,
        close_vote_store)"
    using v by (simp add: getVoteResults_def getVoteById_def o c p Let_def)
  then show ?thesis
    by simp
qed
section \<open>The CSV export\<close>

lemma special_chars: "comma \<noteq> dquote" "comma \<noteq> newline" "dquote \<noteq> newline"
  by (simp_all add: comma_def dquote_def newline_def)

lemma parse_plain_run:
  assumes "plain f" and "m = AtStart \<or> m = Unquoted"
  shows "parse_csv_from m cur row (f @ rest)
     = parse_csv_from (if f = [] then m else Unquoted) (rev f @ cur) row rest"
  using assms
proof (induction f arbitrary: m cur)
  case Nil
  then show ?case by simp
next
  case (Cons c f)
  then have c: "c \<noteq> comma" "c \<noteq> dquote" "c \<noteq> newline" and f: "plain f"
    by (auto simp: plain_def)
  have "parse_csv_from m cur row ((c # f) @ rest) = parse_csv_from Unquoted (c # cur) row (f @ rest)"
    using c Cons.prems(2) by auto
  also have "\<dots> = parse_csv_from (if f = [] then Unquoted else Unquoted) (rev f @ c # cur) row rest"
    by (rule Cons.IH[OF f]) simp
  finally show ?case by simp
qed

lemma parse_comma:
  assumes "m \<noteq> Quoted"
  shows "parse_csv_from m cur row (comma # rest) = parse_csv_from AtStart [] (rev cur # row) rest"
  using assms special_chars by simp

lemma parse_newline:
  assumes "m \<noteq> Quoted"
  shows "parse_csv_from m cur row (newline # rest)
     = rev (rev cur # row) # parse_csv_from AtStart [] [] rest"
  using assms special_chars by auto

lemma parse_quoted_run:
  "parse_csv_from Quoted cur row (double_quotes m @ rest)
     = parse_csv_from Quoted (rev m @ cur) row rest"
  by (induction m arbitrary: cur) (simp_all add: double_quotes_def)

lemma parse_plain_field:
  assumes "plain f"
  shows "parse_csv_from AtStart [] row (f @ comma # rest) = parse_csv_from AtStart [] (f # row) rest"
proof -
  have "parse_csv_from AtStart [] row (f @ comma # rest)
      = parse_csv_from (if f = [] then AtStart else Unquoted) (rev f @ []) row (comma # rest)"
    by (rule parse_plain_run[OF assms]) simp
  also have "\<dots> = parse_csv_from AtStart [] (rev (rev f @ []) # row) rest"
    by (rule parse_comma) simp
  finally show ?thesis by simp
qed

lemma parse_metadata_field:
  "parse_csv_from AtStart [] row (metadata_field md @ comma # rest)
     = parse_csv_from AtStart [] ((case md of None \<Rightarrow> [] | Some m \<Rightarrow> m) # row) rest"
proof (cases "truthy md")
  case False
  then have "metadata_field md = []" and "(case md of None \<Rightarrow> [] | Some m \<Rightarrow> m) = []"
    by (auto simp: metadata_field_def truthy_def split: option.splits)
  then show ?thesis
    using parse_comma[of AtStart "[]" row rest] by simp
next
  case True
  then obtain m where md: "md = Some m"
    by (auto simp: truthy_def split: option.splits)
  have "parse_csv_from AtStart [] row (metadata_field md @ comma # rest)
      = parse_csv_from Quoted [] row (double_quotes m @ dquote # comma # rest)"
    using True by (simp add: metadata_field_def md)
  also have "\<dots> = parse_csv_from Quoted (rev m @ []) row (dquote # comma # rest)"
    by (rule parse_quoted_run)
  also have "\<dots> = parse_csv_from QuoteSeen (rev m) row (comma # rest)"
    by simp
  also have "\<dots> = parse_csv_from AtStart [] (rev (rev m) # row) rest"
    by (rule parse_comma) simp
  finally show ?thesis by (simp add: md)
qed

lemma plain_direction: "plain (direction_str d)"
  by (cases d) (simp_all add: plain_def direction_str_def comma_def dquote_def newline_def)

lemma plain_currency: "plain (currency_str c)"
  by (cases c) (simp_all add: plain_def currency_str_def comma_def dquote_def newline_def)

lemma parse_row_prefix:
  assumes "plain_entry js e"
  shows "parse_csv_from AtStart [] [] (csv_row js e @ rest)
     = parse_csv_from AtStart []
         [case le_metadataJson e of None \<Rightarrow> [] | Some m \<Rightarrow> m, currency_str (le_currency e),
          numberToString js (le_amount e), direction_str (le_direction e), le_refId e,
          le_kind e, le_id e]
         (toISOString js (le_createdAt e) @ rest)"
  using assms
  by (simp add: csv_row_def plain_entry_def parse_plain_field parse_metadata_field
      plain_direction plain_currency del: parse_csv_from.simps)

lemma parse_row_newline:
  assumes "plain_entry js e"
  shows "parse_csv_from AtStart [] [] (csv_row js e @ newline # rest)
     = entry_fields js e # parse_csv_from AtStart [] [] rest"
proof -
  let ?iso = "toISOString js (le_createdAt e)"
  have p: "plain ?iso"
    using assms by (simp add: plain_entry_def)
  have "parse_csv_from AtStart [] row (?iso @ newline # rest)
      = rev (?iso # row) # parse_csv_from AtStart [] [] rest" for row
  proof -
    have "parse_csv_from AtStart [] row (?iso @ newline # rest)
        = parse_csv_from (if ?iso = [] then AtStart else Unquoted) (rev ?iso @ []) row
            (newline # rest)"
      by (rule parse_plain_run[OF p]) simp
    also have "\<dots> = rev (rev (rev ?iso @ []) # row) # parse_csv_from AtStart [] [] rest"
      by (rule parse_newline) simp
    finally show ?thesis by simp
  qed
  then show ?thesis
    by (simp add: parse_row_prefix[OF assms] entry_fields_def del: parse_csv_from.simps)
qed

lemma parse_row_end:
  assumes "plain_entry js e"
  shows "parse_csv_from AtStart [] [] (csv_row js e) = [entry_fields js e]"
proof -
  let ?iso = "toISOString js (le_createdAt e)"
  have p: "plain ?iso"
    using assms by (simp add: plain_entry_def)
  have "parse_csv_from AtStart [] row ?iso = [rev (?iso # row)]" if "row \<noteq> []" for row
  proof -
    have "parse_csv_from AtStart [] row (?iso @ [])
        = parse_csv_from (if ?iso = [] then AtStart else Unquoted) (rev ?iso @ []) row []"
      by (rule parse_plain_run[OF p]) simp
    then show ?thesis
      using that by simp
  qed
  then show ?thesis
    using parse_row_prefix[OF assms, of "[]"]
    by (simp add: entry_fields_def del: parse_csv_from.simps)
qed

lemma parse_rows:
  assumes "\<forall>e \<in> set es. plain_entry js e"
  shows "parse_csv_from AtStart [] [] (join [newline] (map (csv_row js) es))
     = map (entry_fields js) es"
  using assms
proof (induction es rule: induct_list012)
  case 1
  show ?case by simp
next
  case (2 e)
  then show ?case by (simp add: parse_row_end del: parse_csv_from.simps)
next
  case (3 e e' es)
  then show ?case
    by (simp add: parse_row_newline del: parse_csv_from.simps)
qed

lemma parse_header:
  "parse_csv_from AtStart [] [] (csvHeaders @ rest)
     = header_fields # parse_csv_from AtStart [] [] rest"
  by (simp add: csvHeaders_def header_fields_def comma_def dquote_def newline_def)

text \<open>
  C7, as the code has it. The export is the header line
  \<open>ID,Kind,Reference ID,Direction,Amount,Currency,Metadata,Created At\<close> followed by
  one line per ledger entry of the date range, newest first, the lines joined by line
  feeds. A line has the entry's id, kind, reference id, direction, amount, currency,
  metadata and creation time (in the form of \<open>toISOString\<close>), in this order, separated
  by commas; only the metadata is quoted, with its double quotes doubled. When the id,
  kind and reference id of every exported entry (and the runtime's text of its amount
  and date) have no comma, double quote or line feed, reading the export back gives the
  header row and then, entry by entry, exactly the field values of the entries,
  whatever the metadata contains.
\<close>

theorem exportLedgerCSV_round_trip:
  assumes "entries = ledger_findMany js s dateRange"
    and "\<forall>e \<in> set entries. plain_entry js e"
  shows "exportLedgerCSV js s dateRange
       = ''ID,Kind,Reference ID,Direction,Amount,Currency,Metadata,Created At'' @ [newline]
         @ join [newline] (map (csv_row js) entries)
     \<and> mset entries = mset (filter (createdAt_where js dateRange) (ledger s))
     \<and> (dateRange = None \<longrightarrow> mset entries = mset (ledger s))
     \<and> sorted (rev (map le_createdAt entries))
     \<and> parse_csv (exportLedgerCSV js s dateRange) = header_fields # map (entry_fields js) entries
     \<and> length (parse_csv (exportLedgerCSV js s dateRange)) = Suc (length entries)"
proof -
  have x: "exportLedgerCSV js s dateRange
       = csvHeaders @ join [newline] (map (csv_row js) entries)"
    by (simp add: exportLedgerCSV_def assms(1))
  have p: "parse_csv (exportLedgerCSV js s dateRange)
       = header_fields # map (entry_fields js) entries"
    unfolding parse_csv_def x parse_header by (simp add: parse_rows[OF assms(2)])
  have m: "mset entries = mset (filter (createdAt_where js dateRange) (ledger s))"
    by (simp add: assms(1) ledger_findMany_def del: mset_filter)
  have n: "dateRange = None \<longrightarrow> mset entries = mset (ledger s)"
    by (simp add: assms(1) ledger_findMany_def createdAt_where_def)
  have "sorted (map (\<lambda>e. - le_createdAt e) entries)"
    by (simp add: assms(1) ledger_findMany_def)
  then have o: "sorted (rev (map le_createdAt entries))"
    by (induction entries) (auto simp: sorted_append)
  show ?thesis
    using x p m n o by (simp add: csvHeaders_def)
qed

text \<open>
  The two entries of \<open>ledger_store\<close>, the mint first since it is newer. The metadata
  \<open>{"a":1,"b":2}\<close> of the payment comes back as it was.
\<close>

theorem exportLedgerCSV_round_trip_witness:
  "ledger_findMany js_example ledger_store None = [mint_entry, payment_entry]
   \<and> plain_entry js_example mint_entry \<and> plain_entry js_example payment_entry
   \<and> exportLedgerCSV js_example ledger_store None
     = ''ID,Kind,Reference ID,Direction,Amount,Currency,Metadata,Created At'' @ [newline]
       @ ''l2,mint,o1,out,100,TOKEN,,2024-01-01T00:00:00.000Z'' @ [newline]
       @ ''l1,payment,o1,in,50,EUR,'' @ [dquote] @ ''{'' @ [dquote, dquote] @ ''a''
       @ [dquote, dquote] @ '':1,'' @ [dquote, dquote] @ ''b'' @ [dquote, dquote] @ '':2}''
       @ [dquote] @ '',1970-01-01T00:00:00.000Z''
   \<and> parse_csv (exportLedgerCSV js_example ledger_store None)
     = [[''ID'', ''Kind'', ''Reference ID'', ''Direction'', ''Amount'', ''Currency'', ''Metadata'',
         ''Created At''],
        [''l2'', ''mint'', ''o1'', ''out'', ''100'', ''TOKEN'', '''', ''2024-01-01T00:00:00.000Z''],
        [''l1'', ''payment'', ''o1'', ''in'', ''50'', ''EUR'', metadata_example,
         ''1970-01-01T00:00:00.000Z'']]"
proof -
  have f: "ledger_findMany js_example ledger_store None = [mint_entry, payment_entry]"
    by (simp add: ledger_findMany_def createdAt_where_def ledger_store_def empty_store_def
        mint_entry_def payment_entry_def)
  have pl: "plain_entry js_example mint_entry" "plain_entry js_example payment_entry"
    by (simp_all add: plain_entry_def plain_def js_example_def mint_entry_def payment_entry_def
        comma_def dquote_def newline_def)
  then have h: "\<forall>e \<in> set (ledger_findMany js_example ledger_store None). plain_entry js_example e"
    by (simp add: f)
  have rows: "csv_row js_example mint_entry = ''l2,mint,o1,out,100,TOKEN,,2024-01-01T00:00:00.000Z''"
    "csv_row js_example payment_entry
      = ''l1,payment,o1,in,50,EUR,'' @ [dquote] @ ''{'' @ [dquote, dquote] @ ''a''
       @ [dquote, dquote] @ '':1,'' @ [dquote, dquote] @ ''b'' @ [dquote, dquote] @ '':2}''
       @ [dquote] @ '',1970-01-01T00:00:00.000Z''"
    by (simp_all add: csv_row_def metadata_field_def double_quotes_def truthy_def
        direction_str_def currency_str_def js_example_def mint_entry_def payment_entry_def
        metadata_example_def comma_def dquote_def)
  have fields: "entry_fields js_example mint_entry
      = [''l2'', ''mint'', ''o1'', ''out'', ''100'', ''TOKEN'', '''', ''2024-01-01T00:00:00.000Z'']"
    "entry_fields js_example payment_entry
      = [''l1'', ''payment'', ''o1'', ''in'', ''50'', ''EUR'', metadata_example,
         ''1970-01-01T00:00:00.000Z'']"
    by (simp_all add: entry_fields_def direction_str_def currency_str_def js_example_def
        mint_entry_def payment_entry_def)
  note T = exportLedgerCSV_round_trip[OF refl h]
  have e: "exportLedgerCSV js_example ledger_store None
     = ''ID,Kind,Reference ID,Direction,Amount,Currency,Metadata,Created At'' @ [newline]
       @ ''l2,mint,o1,out,100,TOKEN,,2024-01-01T00:00:00.000Z'' @ [newline]
       @ ''l1,payment,o1,in,50,EUR,'' @ [dquote] @ ''{'' @ [dquote, dquote] @ ''a''
       @ [dquote, dquote] @ '':1,'' @ [dquote, dquote] @ ''b'' @ [dquote, dquote] @ '':2}''
       @ [dquote] @ '',1970-01-01T00:00:00.000Z''"
    using T[THEN conjunct1] by (simp add: f rows)
  have p: "parse_csv (exportLedgerCSV js_example ledger_store None)
     = [[''ID'', ''Kind'', ''Reference ID'', ''Direction'', ''Amount'', ''Currency'', ''Metadata'',
         ''Created At''],
        [''l2'', ''mint'', ''o1'', ''out'', ''100'', ''TOKEN'', '''', ''2024-01-01T00:00:00.000Z''],
        [''l1'', ''payment'', ''o1'', ''in'', ''50'', ''EUR'', metadata_example,
         ''1970-01-01T00:00:00.000Z'']]"
    using T[THEN conjunct2, THEN conjunct2, THEN conjunct2, THEN conjunct2, THEN conjunct1]
    by (simp add: f fields header_fields_def)
  from f pl e p show ?thesis
    by (intro conjI)
qed

text \<open>
  C7, as stated, fails: the kind \<open>refund,partial\<close> is written bare, so its line reads
  back as nine fields, not the eight values of the entry.
\<close>

theorem csv_round_trip_counterexample:
  "ledger_findMany js_example (empty_store\<lparr>ledger := [comma_entry]\<rparr>) None = [comma_entry]
   \<and> entry_fields js_example comma_entry
     = [''l3'', ''refund,partial'', ''o1'', ''out'', ''50'', ''EUR'', '''',
        ''1970-01-01T00:00:00.000Z'']
   \<and> parse_csv (exportLedgerCSV js_example (empty_store\<lparr>ledger := [comma_entry]\<rparr>) None)
     = [[''ID'', ''Kind'', ''Reference ID'', ''Direction'', ''Amount'', ''Currency'', ''Metadata'',
         ''Created At''],
        [''l3'', ''refund'', ''partial'', ''o1'', ''out'', ''50'', ''EUR'', '''',
         ''1970-01-01T00:00:00.000Z'']]"
  by (simp add: parse_csv_def exportLedgerCSV_def ledger_findMany_def createdAt_where_def
      csvHeaders_def csv_row_def metadata_field_def truthy_def entry_fields_def
      direction_str_def currency_str_def js_example_def comma_entry_def empty_store_def
      comma_def dquote_def newline_def)

end
